theory Spec2Isabelle
  imports Complex_Main "HOL-Library.Sublist"
begin

section \<open>Strings\<close>

text \<open>
  Message texts are modelled as \<^typ>\<open>string\<close>: a list of 8-bit characters, read as the
  UTF-16 code units below 256 of the JavaScript string. On such strings
  \<^verbatim>\<open>String.prototype.toLowerCase\<close> maps A-Z and the Latin-1 capitals
  (192-222 except the multiplication sign 215) thirty-two places up and leaves
  everything else alone.
\<close>

definition lower_char :: "char \<Rightarrow> char" where
  "lower_char c =
     (let n = (of_char c :: nat)
      in if (65 \<le> n \<and> n \<le> 90) \<or> (192 \<le> n \<and> n \<le> 222 \<and> n \<noteq> 215)
         then char_of (n + 32) else c)"

definition toLowerCase :: "string \<Rightarrow> string" where
  "toLowerCase s = map lower_char s"

text \<open>
  \<^verbatim>\<open>toUpperCase\<close> is only ever applied to the text matched by one of the MAC
  patterns, that is to hex digits, colons and dashes; on those it raises a-f (here: a-z).
\<close>

definition upper_char :: "char \<Rightarrow> char" where
  "upper_char c =
     (let n = (of_char c :: nat)
      in if 97 \<le> n \<and> n \<le> 122 then char_of (n - 32) else c)"

definition toUpperCase :: "string \<Rightarrow> string" where
  "toUpperCase s = map upper_char s"

text \<open>\<^verbatim>\<open>s.includes(kw)\<close>: \<open>kw\<close> occurs in \<open>s\<close> as a contiguous substring.\<close>

fun str_includes :: "string \<Rightarrow> string \<Rightarrow> bool" where
  "str_includes [] kw = (kw = [])"
| "str_includes (c # cs) kw = (prefix kw (c # cs) \<or> str_includes cs kw)"

text \<open>\<^verbatim>\<open>kws.some(kw => s.includes(kw))\<close>\<close>

definition some_includes :: "string list \<Rightarrow> string \<Rightarrow> bool" where
  "some_includes kws s = list_ex (\<lambda>kw. str_includes s kw) kws"

section \<open>Regular expressions of the conversation service\<close>

text \<open>
  An unanchored JavaScript regular expression is tried at position 0, 1, 2, ... of the
  subject and the first position where it matches wins. \<open>regex_search m s\<close> does that for
  a matcher \<open>m\<close> that answers, for the text starting at a position, the matched text.
\<close>

fun regex_search :: "(string \<Rightarrow> string option) \<Rightarrow> string \<Rightarrow> string option" where
  "regex_search m [] = m []"
| "regex_search m (c # cs) =
     (case m (c # cs) of Some r \<Rightarrow> Some r | None \<Rightarrow> regex_search m cs)"

definition is_hex :: "char \<Rightarrow> bool" where
  "is_hex c =
     (let n = (of_char c :: nat)
      in (48 \<le> n \<and> n \<le> 57) \<or> (65 \<le> n \<and> n \<le> 70) \<or> (97 \<le> n \<and> n \<le> 102))"

definition is_mac_sep :: "char \<Rightarrow> bool" where
  "is_mac_sep c = (c = CHR '':'' \<or> c = CHR ''-'')"

text \<open>\<^verbatim>\<open>([0-9A-Fa-f]{2}[:-]){n}([0-9A-Fa-f]{2})\<close> at the start of the text\<close>

fun hex_pairs :: "nat \<Rightarrow> string \<Rightarrow> bool" where
  "hex_pairs 0 (a # b # rest) = (is_hex a \<and> is_hex b)"
| "hex_pairs (Suc n) (a # b # s # rest) =
     (is_hex a \<and> is_hex b \<and> is_mac_sep s \<and> hex_pairs n rest)"
| "hex_pairs n rest = False"

definition match_mac_separated :: "string \<Rightarrow> string option" where
  "match_mac_separated s = (if hex_pairs 5 s then Some (take 17 s) else None)"

text \<open>\<^verbatim>\<open>([0-9A-Fa-f]{12})\<close> at the start of the text\<close>

definition match_mac_bare :: "string \<Rightarrow> string option" where
  "match_mac_bare s =
     (if 12 \<le> length s \<and> list_all is_hex (take 12 s) then Some (take 12 s) else None)"

definition macPatterns :: "(string \<Rightarrow> string option) list" where
  "macPatterns = [match_mac_separated, match_mac_bare]"

text \<open>The loop of \<^verbatim>\<open>extractMacAddress\<close> over the patterns, in their order.\<close>

fun first_pattern_match :: "(string \<Rightarrow> string option) list \<Rightarrow> string \<Rightarrow> string option" where
  "first_pattern_match [] message = None"
| "first_pattern_match (pattern # patterns) message =
     (case regex_search pattern message of
        Some m \<Rightarrow> Some (toUpperCase m)
      | None \<Rightarrow> first_pattern_match patterns message)"

definition extractMacAddress :: "string \<Rightarrow> string option" where
  "extractMacAddress message = first_pattern_match macPatterns message"

subsection \<open>What the specification says a MAC-like token is\<close>

text \<open>
  Six hex pairs separated by a colon or a dash (17 characters), respectively twelve hex
  digits in a row, described by position rather than by a scan.
\<close>

definition mac_separated_form :: "string \<Rightarrow> bool" where
  "mac_separated_form t =
     (length t = 17 \<and>
      list_all (\<lambda>k. if k mod 3 = 2 then is_mac_sep (t ! k) else is_hex (t ! k)) [0..<17])"

definition mac_bare_form :: "string \<Rightarrow> bool" where
  "mac_bare_form t = (length t = 12 \<and> list_all is_hex t)"

definition pos_ok :: "string \<Rightarrow> nat \<Rightarrow> bool" where
  "pos_ok t k = (if k mod 3 = 2 then is_mac_sep (t ! k) else is_hex (t ! k))"

text \<open>The leftmost window of \<open>n\<close> characters of the message that has the form \<open>P\<close>.\<close>

definition first_window :: "(string \<Rightarrow> bool) \<Rightarrow> nat \<Rightarrow> string \<Rightarrow> string option" where
  "first_window P n message =
     map_option (\<lambda>i. take n (drop i message))
       (List.find (\<lambda>i. P (take n (drop i message))) [0..<Suc (length message)])"

definition extract_mac_spec :: "string \<Rightarrow> string option" where
  "extract_mac_spec message =
     (case first_window mac_separated_form 17 message of
        Some m \<Rightarrow> Some (toUpperCase m)
      | None \<Rightarrow> map_option toUpperCase (first_window mac_bare_form 12 message))"

section \<open>Role alternation for the model call\<close>

datatype ChatRole = User | Assistant

record ChatMessage =
  role :: ChatRole
  content :: string

definition newline :: string where
  "newline = [CHR 0x0A]"

text \<open>
  One iteration of the merging loop of \<^verbatim>\<open>ensureAlternatingRoles\<close>: the message joins
  the last merged entry when the roles agree, and is appended (as a copy) otherwise.
\<close>

definition merge_step :: "ChatMessage list \<Rightarrow> ChatMessage \<Rightarrow> ChatMessage list" where
  "merge_step merged msg =
     (if merged \<noteq> [] \<and> role (last merged) = role msg
      then butlast merged @
             [(last merged)\<lparr>content := content (last merged) @ newline @ content msg\<rparr>]
      else merged @ [msg])"

definition ensureAlternatingRoles :: "ChatMessage list \<Rightarrow> ChatMessage list" where
  "ensureAlternatingRoles msgs =
     (if msgs = [] then msgs
      else let merged = foldl merge_step [] msgs
           in if merged \<noteq> [] \<and> role (hd merged) \<noteq> User then tl merged else merged)"

subsection \<open>Runs of one role\<close>

text \<open>A run is a non-empty block of messages of one role; it is merged into one message
  of that role whose content is the contents of the block joined by newlines.\<close>

definition is_run :: "ChatMessage list \<Rightarrow> bool" where
  "is_run run = (run \<noteq> [] \<and> list_all (\<lambda>m. role m = role (hd run)) run)"

fun join_contents :: "string list \<Rightarrow> string" where
  "join_contents [] = []"
| "join_contents [s] = s"
| "join_contents (s # t # ts) = s @ newline @ join_contents (t # ts)"

definition merge_run :: "ChatMessage list \<Rightarrow> ChatMessage" where
  "merge_run run = \<lparr>role = role (hd run), content = join_contents (map content run)\<rparr>"

definition drop_leading_assistant :: "ChatMessage list \<Rightarrow> ChatMessage list" where
  "drop_leading_assistant ms = (if ms \<noteq> [] \<and> role (hd ms) = Assistant then tl ms else ms)"

section \<open>Data model of the conversation service\<close>

datatype ConversationState =
    New | Awaiting_device | Awaiting_mac | Awaiting_content_pref | Trial_pending
  | Trial_active | Trial_expired | Awaiting_payment | Payment_pending
  | Active_subscriber | Churned | Needs_human

datatype DeviceType = Firestick | Android_phone | Smart_tv | Android_box | Tivimate | Other_device

datatype ContentPreference = English | Europe | Worldwide

datatype PlanType = Monthly | Yearly | Two_years | Three_years | Lifetime

datatype PaymentMethod = Revolut | Paypal | Card

datatype Language = En | Fr | Ar

datatype Sentiment = Positive | Neutral | Negative | Frustrated

text \<open>A \<^verbatim>\<open>Date\<close> is its time value: milliseconds since the epoch.\<close>

type_synonym time = int

record Credentials =
  username :: string
  password :: string
  url :: string
  m3uUrl :: "string option"

text \<open>
  A \<^verbatim>\<open>CustomerContext\<close> object. Every property is an option: \<open>None\<close> when the
  object does not carry it (reading it gives \<^verbatim>\<open>undefined\<close>). The same type serves for
  the \<^verbatim>\<open>Partial<CustomerContext>\<close> objects handed to \<^verbatim>\<open>updateContext\<close>. The
  interface declares \<open>phone\<close>, \<open>state\<close>, \<open>followUpsSent\<close>, \<open>needsHuman\<close>,
  \<open>createdAt\<close> and \<open>updatedAt\<close> as required; \<^verbatim>\<open>getOrCreateContext\<close> sets them
  on every object it creates.
\<close>

record CustomerContext =
  ctx_id :: "string option"
  phone :: "string option"
  name :: "string option"
  state :: "ConversationState option"
  previousState :: "ConversationState option"
  device :: "DeviceType option"
  macAddress :: "string option"
  deviceKey :: "string option"
  contentPreference :: "ContentPreference option"
  wantsAdultContent :: "bool option"
  language :: "Language option"
  trialStartedAt :: "time option"
  trialExpiresAt :: "time option"
  plan :: "PlanType option"
  subscribedAt :: "time option"
  expiresAt :: "time option"
  paymentMethod :: "PaymentMethod option"
  paymentPending :: "bool option"
  credentials :: "Credentials option"
  lastMessageAt :: "time option"
  followUpsSent :: "int option"
  lastFollowUpType :: "string option"
  needsHuman :: "bool option"
  escalationReason :: "string option"
  sentiment :: "Sentiment option"
  createdAt :: "time option"
  updatedAt :: "time option"

definition empty_object :: CustomerContext where
  "empty_object =
     \<lparr>ctx_id = None, phone = None, name = None, state = None, previousState = None,
      device = None, macAddress = None, deviceKey = None, contentPreference = None,
      wantsAdultContent = None, language = None, trialStartedAt = None,
      trialExpiresAt = None, plan = None, subscribedAt = None, expiresAt = None,
      paymentMethod = None, paymentPending = None, credentials = None,
      lastMessageAt = None, followUpsSent = None, lastFollowUpType = None,
      needsHuman = None, escalationReason = None, sentiment = None,
      createdAt = None, updatedAt = None\<rparr>"

text \<open>Truthiness of an optional string and of an optional boolean.\<close>

definition truthy_str :: "string option \<Rightarrow> bool" where
  "truthy_str v = (case v of None \<Rightarrow> False | Some s \<Rightarrow> s \<noteq> [])"

definition truthy_bool :: "bool option \<Rightarrow> bool" where
  "truthy_bool v = (v = Some True)"

text \<open>\<^verbatim>\<open>a || fallback\<close> inside a template, for a string property.\<close>

definition str_or :: "string option \<Rightarrow> string \<Rightarrow> string" where
  "str_or v fallback =
     (case v of None \<Rightarrow> fallback | Some s \<Rightarrow> if s = [] then fallback else s)"

text \<open>The string values of the union types.\<close>

fun state_str :: "ConversationState \<Rightarrow> string" where
  "state_str New = ''new''"
| "state_str Awaiting_device = ''awaiting_device''"
| "state_str Awaiting_mac = ''awaiting_mac''"
| "state_str Awaiting_content_pref = ''awaiting_content_pref''"
| "state_str Trial_pending = ''trial_pending''"
| "state_str Trial_active = ''trial_active''"
| "state_str Trial_expired = ''trial_expired''"
| "state_str Awaiting_payment = ''awaiting_payment''"
| "state_str Payment_pending = ''payment_pending''"
| "state_str Active_subscriber = ''active_subscriber''"
| "state_str Churned = ''churned''"
| "state_str Needs_human = ''needs_human''"

fun device_str :: "DeviceType \<Rightarrow> string" where
  "device_str Firestick = ''firestick''"
| "device_str Android_phone = ''android_phone''"
| "device_str Smart_tv = ''smart_tv''"
| "device_str Android_box = ''android_box''"
| "device_str Tivimate = ''tivimate''"
| "device_str Other_device = ''other''"

fun content_str :: "ContentPreference \<Rightarrow> string" where
  "content_str English = ''english''"
| "content_str Europe = ''europe''"
| "content_str Worldwide = ''worldwide''"

fun plan_str :: "PlanType \<Rightarrow> string" where
  "plan_str Monthly = ''monthly''"
| "plan_str Yearly = ''yearly''"
| "plan_str Two_years = ''2years''"
| "plan_str Three_years = ''3years''"
| "plan_str Lifetime = ''lifetime''"

fun method_str :: "PaymentMethod \<Rightarrow> string" where
  "method_str Revolut = ''revolut''"
| "method_str Paypal = ''paypal''"
| "method_str Card = ''card''"

text \<open>
  Messages sent to the customer are fixed templates (or the model's text); the model
  records which template a branch answers with, not its wording. \<open>Raw\<close> is plain text:
  what the customer wrote, or what the language model returned.
\<close>

datatype reply =
    Raw string
  | Escalation_reply
  | AI_error_apology
  | Setup_instructions DeviceType
  | Greeting
  | Device_question
  | Tivimate_content_question
  | Got_device_details
  | Mac_help
  | Trial_setup
  | Pricing "PlanType option"
  | Payment_instructions PaymentMethod
  | Payment_verify_request
  | Payment_options "PlanType option"
  | Payment_verifying
  | Technical_questions
  | Trial_activated_tivimate Credentials
  | Trial_activated
  | Subscription_welcome PlanType Credentials

datatype MessageRole = Role_user | Role_assistant | Role_system

record ConversationMessage =
  msg_role :: MessageRole
  msg_content :: reply
  timestamp :: time

subsection \<open>The store\<close>

text \<open>
  Context objects live in a heap and are handed around by address, as the JavaScript
  objects are: \<open>conversations\<close> maps a phone number to the address of its context, a
  handler that holds that address writes to the stored object itself, and an object
  spread allocates a new address. \<open>clock\<close> lists the successive readings of the system
  clock; each \<^verbatim>\<open>new Date()\<close> or \<^verbatim>\<open>Date.now()\<close> takes the next one.
\<close>

type_synonym addr = nat

record world =
  heap :: "addr \<Rightarrow> CustomerContext"
  next_addr :: addr
  conversations :: "string \<rightharpoonup> addr"
  messageHistory :: "string \<rightharpoonup> ConversationMessage list"
  clock :: "nat \<Rightarrow> time"
  ticks :: nat

definition tick :: "world \<Rightarrow> time \<times> world" where
  "tick w = (clock w (ticks w), w\<lparr>ticks := Suc (ticks w)\<rparr>)"

definition modify :: "addr \<Rightarrow> (CustomerContext \<Rightarrow> CustomerContext) \<Rightarrow> world \<Rightarrow> world" where
  "modify a f w = w\<lparr>heap := (heap w)(a := f (heap w a))\<rparr>"

definition alloc :: "CustomerContext \<Rightarrow> world \<Rightarrow> addr \<times> world" where
  "alloc obj w =
     (next_addr w, w\<lparr>heap := (heap w)(next_addr w := obj), next_addr := Suc (next_addr w)\<rparr>)"

definition hasContext :: "string \<Rightarrow> world \<Rightarrow> bool" where
  "hasContext ph w = (conversations w ph \<noteq> None)"

definition getOrCreateContext :: "string \<Rightarrow> world \<Rightarrow> addr \<times> world" where
  "getOrCreateContext ph w =
     (case conversations w ph of
        Some a \<Rightarrow> (a, w)
      | None \<Rightarrow>
          (let (tc, w1) = tick w;
               (tu, w2) = tick w1;
               (a, w3) = alloc (empty_object\<lparr>phone := Some ph, state := Some New,
                                 followUpsSent := Some 0, needsHuman := Some False,
                                 createdAt := Some tc, updatedAt := Some tu\<rparr>) w2
           in (a, w3\<lparr>conversations := (conversations w3)(ph \<mapsto> a)\<rparr>)))"

text \<open>\<^verbatim>\<open>Object.assign(target, source)\<close>: every property the source carries is written
  to the target.\<close>

definition pick :: "'a option \<Rightarrow> 'a option \<Rightarrow> 'a option" where
  "pick new old = (case new of Some v \<Rightarrow> Some v | None \<Rightarrow> old)"

definition object_assign :: "CustomerContext \<Rightarrow> CustomerContext \<Rightarrow> CustomerContext" where
  "object_assign target source =
     \<lparr>ctx_id = pick (ctx_id source) (ctx_id target),
      phone = pick (phone source) (phone target),
      name = pick (name source) (name target),
      state = pick (state source) (state target),
      previousState = pick (previousState source) (previousState target),
      device = pick (device source) (device target),
      macAddress = pick (macAddress source) (macAddress target),
      deviceKey = pick (deviceKey source) (deviceKey target),
      contentPreference = pick (contentPreference source) (contentPreference target),
      wantsAdultContent = pick (wantsAdultContent source) (wantsAdultContent target),
      language = pick (language source) (language target),
      trialStartedAt = pick (trialStartedAt source) (trialStartedAt target),
      trialExpiresAt = pick (trialExpiresAt source) (trialExpiresAt target),
      plan = pick (plan source) (plan target),
      subscribedAt = pick (subscribedAt source) (subscribedAt target),
      expiresAt = pick (expiresAt source) (expiresAt target),
      paymentMethod = pick (paymentMethod source) (paymentMethod target),
      paymentPending = pick (paymentPending source) (paymentPending target),
      credentials = pick (credentials source) (credentials target),
      lastMessageAt = pick (lastMessageAt source) (lastMessageAt target),
      followUpsSent = pick (followUpsSent source) (followUpsSent target),
      lastFollowUpType = pick (lastFollowUpType source) (lastFollowUpType target),
      needsHuman = pick (needsHuman source) (needsHuman target),
      escalationReason = pick (escalationReason source) (escalationReason target),
      sentiment = pick (sentiment source) (sentiment target),
      createdAt = pick (createdAt source) (createdAt target),
      updatedAt = pick (updatedAt source) (updatedAt target)\<rparr>"

text \<open>
  \<^verbatim>\<open>updateContext(phone, updates)\<close>, with \<open>updates\<close> given by address: it may be the
  stored context itself or another object. The steps are those of the source: fetch or
  create the context, record the previous state when the update carries a different one,
  read the clock, assign the update and then \<^verbatim>\<open>{ updatedAt }\<close>, store, return.
\<close>

definition updateContext :: "string \<Rightarrow> addr \<Rightarrow> world \<Rightarrow> addr \<times> world" where
  "updateContext ph updates w =
     (let (a, w1) = getOrCreateContext ph w;
          w2 = (if state (heap w1 updates) \<noteq> None
                   \<and> state (heap w1 updates) \<noteq> state (heap w1 a)
                then modify a (\<lambda>c. c\<lparr>previousState := state c\<rparr>) w1
                else w1);
          (t, w3) = tick w2;
          w4 = modify a (\<lambda>c. (object_assign c (heap w3 updates))\<lparr>updatedAt := Some t\<rparr>) w3
      in (a, w4\<lparr>conversations := (conversations w4)(ph \<mapsto> a)\<rparr>))"

text \<open>\<^verbatim>\<open>addMessage\<close>: append, and drop the oldest entry above fifty.\<close>

definition addMessage :: "string \<Rightarrow> ConversationMessage \<Rightarrow> world \<Rightarrow> world" where
  "addMessage ph msg w =
     (let history = (case messageHistory w ph of Some h \<Rightarrow> h | None \<Rightarrow> []) @ [msg];
          history' = (if length history > 50 then tl history else history)
      in w\<lparr>messageHistory := (messageHistory w)(ph \<mapsto> history')\<rparr>)"

subsection \<open>Escalation\<close>

definition escalationKeywords :: "string list" where
  "escalationKeywords =
     [''speak to someone'', ''real person'', ''human'', ''manager'', ''supervisor'',
      ''complaint'', ''refund'', ''scam'', ''fraud'', ''not working for days'',
      ''still not fixed'']"

text \<open>
  \<^verbatim>\<open>shouldEscalateToHuman(context, message, intent)\<close>, check by check in the order of
  the source. The last test (three follow-ups sent on an expired trial) comes after the
  keyword test and answers \<open>False\<close>, as does the line after it.
\<close>

definition shouldEscalateToHuman :: "CustomerContext \<Rightarrow> string \<Rightarrow> string \<Rightarrow> bool" where
  "shouldEscalateToHuman context message intent_label =
     (if intent_label = ''human_request'' then True
      else if sentiment context = Some Frustrated then True
      else if some_includes escalationKeywords (toLowerCase message) then True
      else if (case followUpsSent context of Some n \<Rightarrow> n \<ge> 3 | None \<Rightarrow> False)
                \<and> state context = Some Trial_expired then False
      else False)"

subsection \<open>Admin notifications\<close>

datatype NotificationType = Trial_request | Payment_received | Technical_issue | Escalation

record AdminNotification =
  ntype :: NotificationType
  ntext :: string

text \<open>The pictographs of the notification templates, as their UTF-8 bytes.\<close>

definition pict_new :: string where "pict_new = [CHR 0xF0, CHR 0x9F, CHR 0x86, CHR 0x95]"
definition pict_mobile :: string where "pict_mobile = [CHR 0xF0, CHR 0x9F, CHR 0x93, CHR 0xB1]"
definition pict_pin :: string where "pict_pin = [CHR 0xF0, CHR 0x9F, CHR 0x93, CHR 0x8D]"
definition pict_key :: string where "pict_key = [CHR 0xF0, CHR 0x9F, CHR 0x94, CHR 0x91]"
definition pict_globe :: string where "pict_globe = [CHR 0xF0, CHR 0x9F, CHR 0x8C, CHR 0x8D]"
definition pict_adult :: string where "pict_adult = [CHR 0xF0, CHR 0x9F, CHR 0x94, CHR 0x9E]"
definition pict_receiver :: string where "pict_receiver = [CHR 0xF0, CHR 0x9F, CHR 0x93, CHR 0x9E]"
definition pict_siren :: string where "pict_siren = [CHR 0xF0, CHR 0x9F, CHR 0x9A, CHR 0xA8]"
definition pict_warning :: string where
  "pict_warning = [CHR 0xE2, CHR 0x9A, CHR 0xA0, CHR 0xEF, CHR 0xB8, CHR 0x8F]"
definition pict_money :: string where "pict_money = [CHR 0xF0, CHR 0x9F, CHR 0x92, CHR 0xB0]"
definition pict_package :: string where "pict_package = [CHR 0xF0, CHR 0x9F, CHR 0x93, CHR 0xA6]"
definition pict_card :: string where "pict_card = [CHR 0xF0, CHR 0x9F, CHR 0x92, CHR 0xB3]"
definition pict_camera :: string where "pict_camera = [CHR 0xF0, CHR 0x9F, CHR 0x93, CHR 0xB8]"

text \<open>A property interpolated into a template: its text, or \<^verbatim>\<open>undefined\<close>.\<close>

definition dquote :: string where
  "dquote = [CHR 0x22]"

definition interpolate :: "string option \<Rightarrow> string" where
  "interpolate v = (case v of Some s \<Rightarrow> s | None \<Rightarrow> ''undefined'')"

definition createTrialNotification :: "CustomerContext \<Rightarrow> string" where
  "createTrialNotification context =
     pict_new @ '' NEW TRIAL REQUEST'' @ newline @ newline
     @ pict_mobile @ '' Device: ''
       @ (case device context of Some d \<Rightarrow> device_str d | None \<Rightarrow> ''Unknown'') @ newline
     @ pict_pin @ '' MAC Address: '' @ str_or (macAddress context) ''N/A'' @ newline
     @ pict_key @ '' Device Key: '' @ str_or (deviceKey context) ''N/A'' @ newline
     @ pict_globe @ '' Content: ''
       @ (case contentPreference context of Some p \<Rightarrow> content_str p
          | None \<Rightarrow> ''Not specified'') @ newline
     @ (if truthy_bool (wantsAdultContent context)
        then pict_adult @ '' Adult content: YES'' else []) @ newline @ newline
     @ pict_receiver @ '' Customer WhatsApp: '' @ interpolate (phone context) @ newline @ newline
     @ ''Reply with credentials to activate:'' @ newline
     @ ''Username:'' @ newline @ ''Password:'' @ newline @ ''URL:''"

fun formatPlanName :: "PlanType \<Rightarrow> string" where
  "formatPlanName Monthly = ''Monthly Plan''"
| "formatPlanName Yearly = ''Yearly Plan''"
| "formatPlanName Two_years = ''2-Year Plan''"
| "formatPlanName Three_years = ''3-Year Plan''"
| "formatPlanName Lifetime = ''Lifetime Plan''"

definition createPaymentNotification :: "CustomerContext \<Rightarrow> string" where
  "createPaymentNotification context =
     pict_money @ '' PAYMENT NOTIFICATION'' @ newline @ newline
     @ pict_receiver @ '' Customer: '' @ interpolate (phone context) @ newline
     @ pict_package @ '' Plan: ''
       @ (case plan context of Some p \<Rightarrow> formatPlanName p | None \<Rightarrow> ''Unknown'') @ newline
     @ pict_card @ '' Method: ''
       @ (case paymentMethod context of Some m \<Rightarrow> method_str m | None \<Rightarrow> ''Unknown'')
     @ newline @ newline
     @ pict_warning @ '' Please verify payment and confirm activation.'' @ newline @ newline
     @ ''Reply with '' @ dquote @ ''CONFIRMED'' @ dquote @ '' to activate subscription.''"

subsection \<open>Follow-up scheduling\<close>

record FollowUp =
  fu_type :: string
  sendAt :: time

text \<open>
  \<^verbatim>\<open>calculateFollowUpTime(context)\<close>; \<open>now\<close> is the clock reading taken on entry.
  Elapsed hours and days are the quotients of the source (time values are whole
  milliseconds, far below the range where the floating-point quotient could cross one
  of the thresholds compared against).
\<close>

definition hours_between :: "time \<Rightarrow> time \<Rightarrow> real" where
  "hours_between now t = real_of_int (now - t) / (1000 * 60 * 60)"

definition days_between :: "time \<Rightarrow> time \<Rightarrow> real" where
  "days_between now t = real_of_int (now - t) / (1000 * 60 * 60 * 24)"

definition sent_eq :: "CustomerContext \<Rightarrow> int \<Rightarrow> bool" where
  "sent_eq context k = (followUpsSent context = Some k)"

definition sent_le :: "CustomerContext \<Rightarrow> int \<Rightarrow> bool" where
  "sent_le context k = (case followUpsSent context of Some n \<Rightarrow> n \<le> k | None \<Rightarrow> False)"

definition trial_followup :: "CustomerContext \<Rightarrow> time \<Rightarrow> FollowUp option" where
  "trial_followup context now =
     (case trialStartedAt context of
        None \<Rightarrow> None
      | Some trialStart \<Rightarrow>
          if state context \<noteq> Some Trial_active then None
          else if hours_between now trialStart < 18 \<and> sent_eq context 0
          then Some \<lparr>fu_type = ''trial_18h'', sendAt = trialStart + 18 * 60 * 60 * 1000\<rparr>
          else if hours_between now trialStart < 23 \<and> sent_le context 1
          then Some \<lparr>fu_type = ''trial_23h'', sendAt = trialStart + 23 * 60 * 60 * 1000\<rparr>
          else None)"

definition ghoster_followup :: "CustomerContext \<Rightarrow> time \<Rightarrow> FollowUp option" where
  "ghoster_followup context now =
     (case lastMessageAt context of
        None \<Rightarrow> None
      | Some lastMsg \<Rightarrow>
          if state context \<noteq> Some Awaiting_mac then None
          else if hours_between now lastMsg \<ge> 4 \<and> sent_eq context 0
          then Some \<lparr>fu_type = ''ghoster_4h'', sendAt = now\<rparr>
          else if hours_between now lastMsg \<ge> 24 \<and> sent_eq context 1
          then Some \<lparr>fu_type = ''ghoster_nextday'', sendAt = now\<rparr>
          else None)"

definition post_trial_followup :: "CustomerContext \<Rightarrow> time \<Rightarrow> FollowUp option" where
  "post_trial_followup context now =
     (case trialExpiresAt context of
        None \<Rightarrow> None
      | Some expiry \<Rightarrow>
          if state context \<noteq> Some Trial_expired then None
          else if days_between now expiry \<ge> 1 \<and> sent_le context 2
          then Some \<lparr>fu_type = ''day1_followup'', sendAt = now\<rparr>
          else if days_between now expiry \<ge> 3 \<and> sent_le context 3
          then Some \<lparr>fu_type = ''day3_followup'', sendAt = now\<rparr>
          else if days_between now expiry \<ge> 7 \<and> sent_le context 4
          then Some \<lparr>fu_type = ''day7_final'', sendAt = now\<rparr>
          else None)"

definition calculateFollowUpTime :: "CustomerContext \<Rightarrow> time \<Rightarrow> FollowUp option" where
  "calculateFollowUpTime context now =
     (case trial_followup context now of
        Some f \<Rightarrow> Some f
      | None \<Rightarrow>
          (case ghoster_followup context now of
             Some f \<Rightarrow> Some f
           | None \<Rightarrow> post_trial_followup context now))"

text \<open>The test of \<^verbatim>\<open>getTrialsNeedingFollowUp\<close> on one context: a follow-up is
  computed and its send time is not after the clock reading \<open>now'\<close> taken next.\<close>

definition needsFollowUp :: "CustomerContext \<Rightarrow> time \<Rightarrow> time \<Rightarrow> bool" where
  "needsFollowUp context now now' =
     (case calculateFollowUpTime context now of None \<Rightarrow> False | Some f \<Rightarrow> sendAt f \<le> now')"

subsection \<open>Keyword extraction\<close>

definition extractDeviceType :: "string \<Rightarrow> DeviceType option" where
  "extractDeviceType message =
     (let lower = toLowerCase message
      in if str_includes lower ''fire'' \<or> str_includes lower ''firestick''
              \<or> str_includes lower ''amazon'' then Some Firestick
         else if str_includes lower ''android phone'' \<or> str_includes lower ''phone''
              \<or> str_includes lower ''mobile'' \<or> str_includes lower ''tablet''
         then Some Android_phone
         else if str_includes lower ''smart tv'' \<or> str_includes lower ''samsung''
              \<or> str_includes lower ''lg'' \<or> str_includes lower ''sony''
              \<or> str_includes lower ''philips'' then Some Smart_tv
         else if str_includes lower ''android box'' \<or> str_includes lower ''box''
              \<or> str_includes lower ''xiaomi'' then Some Android_box
         else if str_includes lower ''tivimate'' \<or> str_includes lower ''tivi mate''
         then Some Tivimate
         else None)"

definition extractContentPreference :: "string \<Rightarrow> ContentPreference option" where
  "extractContentPreference message =
     (let lower = toLowerCase message
      in if str_includes lower ''english'' \<or> str_includes lower ''uk''
              \<or> str_includes lower ''irish'' \<or> str_includes lower ''ireland''
         then Some English
         else if str_includes lower ''europe'' \<or> str_includes lower ''european''
         then Some Europe
         else if str_includes lower ''worldwide'' \<or> str_includes lower ''world''
              \<or> str_includes lower ''everything'' \<or> str_includes lower ''all''
         then Some Worldwide
         else None)"

definition paymentKeywords :: "string list" where
  "paymentKeywords =
     [''paid'', ''sent'', ''payment'', ''transferred'', ''receipt'', ''done'',
      ''money sent'', ''just paid'']"

definition isPaymentConfirmation :: "string \<Rightarrow> bool" where
  "isPaymentConfirmation message = some_includes paymentKeywords (toLowerCase message)"

section \<open>The runtime's Date arithmetic\<close>

text \<open>
  \<^verbatim>\<open>setMonth\<close> and \<^verbatim>\<open>setFullYear\<close> follow ECMAScript's \<^verbatim>\<open>MakeDay\<close>: the
  month is carried into the year, the day number of the first of that month is taken,
  and the day of the month is added to it, so that a day the target month does not have
  runs over into the next month. The local time zone is taken to be UTC. Day numbers
  and calendar dates are converted by the usual era-based computation on the
  proleptic Gregorian calendar; months count from 0.
\<close>

definition msPerDay :: int where
  "msPerDay = 86400000"

definition days_from_civil :: "int \<Rightarrow> int \<Rightarrow> int \<Rightarrow> int" where
  "days_from_civil y m d =
     (let y' = (if m \<le> 1 then y - 1 else y);
          era = y' div 400;
          yoe = y' - era * 400;
          mp = (m + 10) mod 12;
          doy = (153 * mp + 2) div 5 + d - 1;
          doe = yoe * 365 + yoe div 4 - yoe div 100 + doy
      in era * 146097 + doe - 719468)"

definition civil_from_days :: "int \<Rightarrow> int \<times> int \<times> int" where
  "civil_from_days z =
     (let z' = z + 719468;
          era = z' div 146097;
          doe = z' - era * 146097;
          yoe = (doe - doe div 1460 + doe div 36524 - doe div 146096) div 365;
          doy = doe - (365 * yoe + yoe div 4 - yoe div 100);
          mp = (5 * doy + 2) div 153;
          d = doy - (153 * mp + 2) div 5 + 1;
          m = (if mp < 10 then mp + 2 else mp - 10);
          y = yoe + era * 400 + (if m \<le> 1 then 1 else 0)
      in (y, m, d))"

definition getFullYear :: "time \<Rightarrow> int" where
  "getFullYear t = fst (civil_from_days (t div msPerDay))"

definition getMonth :: "time \<Rightarrow> int" where
  "getMonth t = fst (snd (civil_from_days (t div msPerDay)))"

definition getDate :: "time \<Rightarrow> int" where
  "getDate t = snd (snd (civil_from_days (t div msPerDay)))"

definition MakeDay :: "int \<Rightarrow> int \<Rightarrow> int \<Rightarrow> int" where
  "MakeDay year month date = days_from_civil (year + month div 12) (month mod 12) 1 + date - 1"

definition setMonth :: "time \<Rightarrow> int \<Rightarrow> time" where
  "setMonth t month = MakeDay (getFullYear t) month (getDate t) * msPerDay + t mod msPerDay"

definition setFullYear :: "time \<Rightarrow> int \<Rightarrow> time" where
  "setFullYear t year = MakeDay year (getMonth t) (getDate t) * msPerDay + t mod msPerDay"

section \<open>The AI service\<close>

text \<open>
  The repository holds the AI service twice. The copy that accompanies the conversation
  service advances the state from the collected fields and lets the language model word
  every reply; its functions carry the suffix \<open>_auto\<close>. The copy at
  \<^verbatim>\<open>src/services/ai/AIService.ts\<close> dispatches on the state to one handler per state;
  its functions carry the suffix \<open>_sm\<close>. Intent detection and the two admin
  activations read the same in both and are modelled once.
\<close>

record Entities =
  entity_device :: "DeviceType option"
  plan_interest :: "PlanType option"
  content_preference :: "ContentPreference option"
  mac_address :: "string option"
  device_key :: "string option"
  payment_method :: "PaymentMethod option"

record IntentResult =
  intent :: string
  confidence :: real
  entities :: Entities
  sentiment_of :: Sentiment
  needs_human :: bool

record ChatbotResponse =
  response_message :: reply
  context_ref :: addr
  shouldNotifyAdmin :: bool
  adminNotification :: "AdminNotification option"
  response_intent :: "IntentResult option"

datatype exn = Error string

text \<open>What a call to the language model came to: it threw, or it returned text.\<close>

datatype 'a outcome = Rejected string | Resolved 'a

subsection \<open>Intent detection\<close>

definition no_entities :: Entities where
  "no_entities = \<lparr>entity_device = None, plan_interest = None, content_preference = None,
                   mac_address = None, device_key = None, payment_method = None\<rparr>"

definition default_intent :: "real \<Rightarrow> IntentResult" where
  "default_intent c = \<lparr>intent = ''other'', confidence = c, entities = no_entities,
                        sentiment_of = Neutral, needs_human = False\<rparr>"

text \<open>\<^verbatim>\<open>content.match(/\{[\s\S]*\}/)\<close>: from the first opening brace to the last closing
  brace after it.\<close>

definition json_match :: "string \<Rightarrow> string option" where
  "json_match txt =
     (case dropWhile (\<lambda>c. c \<noteq> CHR ''{'') txt of
        [] \<Rightarrow> None
      | brace # rest \<Rightarrow>
          (case rev (dropWhile (\<lambda>c. c \<noteq> CHR ''}'') (rev rest)) of
             [] \<Rightarrow> None
           | body \<Rightarrow> Some (brace # body)))"

text \<open>
  The \<^verbatim>\<open>try\<close> block of \<^verbatim>\<open>detectIntent\<close>: \<open>Inl\<close> when something in it throws (the
  model call, or \<^verbatim>\<open>JSON.parse\<close> on the matched text), \<open>Inr (Some r)\<close> when it returns
  \<open>r\<close>, \<open>Inr None\<close> when it runs to its end. \<open>json_parse\<close> stands for the runtime's
  \<^verbatim>\<open>JSON.parse\<close> read at the declared result type; \<open>None\<close> is its exception.
\<close>

definition detect_try ::
  "(string \<Rightarrow> IntentResult option) \<Rightarrow> string outcome \<Rightarrow> exn + IntentResult option" where
  "detect_try json_parse call =
     (case call of
        Rejected e \<Rightarrow> Inl (Error e)
      | Resolved txt \<Rightarrow>
          (case json_match txt of
             None \<Rightarrow> Inr None
           | Some j \<Rightarrow>
               (case json_parse j of
                  None \<Rightarrow> Inl (Error ''SyntaxError'')
                | Some r \<Rightarrow> Inr (Some r))))"

definition detectIntent ::
  "bool \<Rightarrow> (string \<Rightarrow> IntentResult option) \<Rightarrow> string outcome \<Rightarrow> string
     \<Rightarrow> exn + IntentResult" where
  "detectIntent configured json_parse call message =
     (if \<not> configured then Inr (default_intent 0)
      else case detect_try json_parse call of
             Inr (Some r) \<Rightarrow> Inr r
           | Inr None \<Rightarrow> Inr (default_intent (1 / 2))
           | Inl e \<Rightarrow> Inr (default_intent (1 / 2)))"

subsection \<open>Admin activations\<close>

definition with_m3u :: "Credentials \<Rightarrow> Credentials" where
  "with_m3u c =
     c\<lparr>m3uUrl := Some (url c @ ''/get.php?username='' @ username c @ ''&password=''
                        @ password c @ ''&type=m3u_plus&output=ts'')\<rparr>"

definition activateTrial :: "string \<Rightarrow> Credentials \<Rightarrow> world \<Rightarrow> ChatbotResponse \<times> world" where
  "activateTrial ph creds w =
     (let (a, w1) = getOrCreateContext ph w;
          w2 = modify a (\<lambda>c. c\<lparr>state := Some Trial_active\<rparr>) w1;
          (t1, w3) = tick w2;
          w4 = modify a (\<lambda>c. c\<lparr>trialStartedAt := Some t1\<rparr>) w3;
          (t2, w5) = tick w4;
          w6 = modify a (\<lambda>c. c\<lparr>trialExpiresAt := Some (t2 + 24 * 60 * 60 * 1000)\<rparr>) w5;
          w7 = modify a (\<lambda>c. c\<lparr>credentials := Some (with_m3u creds)\<rparr>) w6;
          (_, w8) = updateContext ph a w7;
          activationMessage =
            (if device (heap w8 a) = Some Tivimate
             then Trial_activated_tivimate creds else Trial_activated)
      in (\<lparr>response_message = activationMessage, context_ref = a, shouldNotifyAdmin = False,
           adminNotification = None, response_intent = None\<rparr>, w8))"

definition plan_expiry :: "PlanType \<Rightarrow> time \<Rightarrow> time" where
  "plan_expiry p now =
     (case p of
        Monthly \<Rightarrow> setMonth now (getMonth now + 1)
      | Yearly \<Rightarrow> setMonth now (getMonth now + 14)
      | Two_years \<Rightarrow> setMonth now (getMonth now + 28)
      | Three_years \<Rightarrow> setMonth now (getMonth now + 36)
      | Lifetime \<Rightarrow> setFullYear now (getFullYear now + 6))"

definition activateSubscription ::
  "string \<Rightarrow> PlanType \<Rightarrow> Credentials \<Rightarrow> world \<Rightarrow> ChatbotResponse \<times> world" where
  "activateSubscription ph p creds w =
     (let (a, w1) = getOrCreateContext ph w;
          w2 = modify a (\<lambda>c. c\<lparr>state := Some Active_subscriber\<rparr>) w1;
          w3 = modify a (\<lambda>c. c\<lparr>plan := Some p\<rparr>) w2;
          (t1, w4) = tick w3;
          w5 = modify a (\<lambda>c. c\<lparr>subscribedAt := Some t1\<rparr>) w4;
          w6 = modify a (\<lambda>c. c\<lparr>paymentPending := Some False\<rparr>) w5;
          w7 = modify a (\<lambda>c. c\<lparr>credentials := Some (with_m3u creds)\<rparr>) w6;
          (now, w8) = tick w7;
          w9 = modify a (\<lambda>c. c\<lparr>expiresAt := Some (plan_expiry p now)\<rparr>) w8;
          (_, w10) = updateContext ph a w9
      in (\<lparr>response_message = Subscription_welcome p creds, context_ref = a, shouldNotifyAdmin = False,
           adminNotification = None, response_intent = None\<rparr>, w10))"

subsection \<open>What one inbound message brings with it\<close>

text \<open>
  Besides the phone number and the text, a turn is decided by what the two calls to the
  language model come to (the classification call of \<^verbatim>\<open>detectIntent\<close> and the reply
  call of \<^verbatim>\<open>generateAIResponse\<close>) and by the language \<^verbatim>\<open>detectLanguage\<close> finds
  in the text. The history sent along with the reply call only shapes the model's
  answer, which is an input here.
\<close>

record turn =
  intent_call :: "string outcome"
  reply_call :: "string outcome"
  detected_language :: Language

definition escalation_text :: "string \<Rightarrow> IntentResult \<Rightarrow> string \<Rightarrow> string" where
  "escalation_text ph i msg =
     pict_siren @ '' ESCALATION NEEDED'' @ newline @ newline
     @ ''Customer: '' @ ph @ newline
     @ ''Reason: ''
       @ (if intent i = ''human_request'' then ''Requested human'' else ''Detected frustration'')
     @ newline
     @ ''Last message: '' @ dquote @ msg @ dquote"

definition ai_error_text :: "CustomerContext \<Rightarrow> string \<Rightarrow> string \<Rightarrow> string" where
  "ai_error_text c err msg =
     pict_siren @ '' AI ERROR'' @ newline @ newline
     @ ''Customer: '' @ interpolate (phone c) @ newline
     @ ''Error: '' @ err @ newline
     @ ''Last message: '' @ dquote @ msg @ dquote"

subsection \<open>The service that advances the state from the collected fields\<close>

text \<open>\<^verbatim>\<open>/device\s*key[:\s]*([A-Za-z0-9]+)/i\<close> at the start of the text; the answer is the
  captured group. The greedy stars never need to give anything back: what follows each
  of them cannot begin with a character the star accepts.\<close>

definition is_space :: "char \<Rightarrow> bool" where
  "is_space c = (let n = (of_char c :: nat) in (9 \<le> n \<and> n \<le> 13) \<or> n = 32 \<or> n = 160)"

definition is_alnum :: "char \<Rightarrow> bool" where
  "is_alnum c =
     (let n = (of_char c :: nat)
      in (48 \<le> n \<and> n \<le> 57) \<or> (65 \<le> n \<and> n \<le> 90) \<or> (97 \<le> n \<and> n \<le> 122))"

fun strip_prefix_ci :: "string \<Rightarrow> string \<Rightarrow> string option" where
  "strip_prefix_ci [] s = Some s"
| "strip_prefix_ci (p # ps) [] = None"
| "strip_prefix_ci (p # ps) (c # cs) =
     (if lower_char c = p then strip_prefix_ci ps cs else None)"

definition match_device_key :: "string \<Rightarrow> string option" where
  "match_device_key s =
     (case strip_prefix_ci ''device'' s of
        None \<Rightarrow> None
      | Some r1 \<Rightarrow>
          (case strip_prefix_ci ''key'' (dropWhile is_space r1) of
             None \<Rightarrow> None
           | Some r2 \<Rightarrow>
               (case takeWhile is_alnum (dropWhile (\<lambda>c. c = CHR '':'' \<or> is_space c) r2) of
                  [] \<Rightarrow> None
                | k \<Rightarrow> Some k)))"

definition isValid :: "string option \<Rightarrow> bool" where
  "isValid v =
     (case v of
        None \<Rightarrow> False
      | Some s \<Rightarrow> s \<noteq> ''null'' \<and> s \<noteq> ''none'' \<and> s \<noteq> ''N/A'' \<and> s \<noteq> [])"

definition mentions_adult :: "string \<Rightarrow> bool" where
  "mentions_adult msg =
     (let lower = toLowerCase msg
      in str_includes lower ''adult'' \<or> str_includes lower ''xxx'' \<or> str_includes lower ''porn'')"

text \<open>\<^verbatim>\<open>updateContextFromIntent(context, intent, message)\<close>; it writes to the context it
  is given, statement by statement. The entities of the classifier have the declared
  types, so those of a union type are valid whenever present.\<close>

definition updateContextFromIntent_auto ::
  "IntentResult \<Rightarrow> string \<Rightarrow> CustomerContext \<Rightarrow> CustomerContext" where
  "updateContextFromIntent_auto i msg c =
     (let c1 = c\<lparr>sentiment := Some (sentiment_of i)\<rparr>;
          c2 = (if mentions_adult msg then c1\<lparr>wantsAdultContent := Some True\<rparr> else c1);
          c3 = (if \<not> truthy_str (macAddress c2)
                then (case extractMacAddress msg of
                        Some m \<Rightarrow> c2\<lparr>macAddress := Some m\<rparr> | None \<Rightarrow> c2)
                else c2);
          c4 = (if \<not> truthy_str (deviceKey c3)
                then (case regex_search match_device_key msg of
                        Some k \<Rightarrow> c3\<lparr>deviceKey := Some k\<rparr> | None \<Rightarrow> c3)
                else c3);
          c5 = (if contentPreference c4 = None
                then (case extractContentPreference msg of
                        Some p \<Rightarrow> c4\<lparr>contentPreference := Some p\<rparr> | None \<Rightarrow> c4)
                else c4);
          c6 = (if device c5 = None
                then (case extractDeviceType msg of
                        Some d \<Rightarrow> c5\<lparr>device := Some d\<rparr> | None \<Rightarrow> c5)
                else c5);
          c7 = (if entity_device (entities i) \<noteq> None \<and> device c6 = None
                then c6\<lparr>device := entity_device (entities i)\<rparr> else c6);
          c8 = (if plan_interest (entities i) \<noteq> None \<and> plan c7 = None
                then c7\<lparr>plan := plan_interest (entities i)\<rparr> else c7);
          c9 = (if content_preference (entities i) \<noteq> None \<and> contentPreference c8 = None
                then c8\<lparr>contentPreference := content_preference (entities i)\<rparr> else c8);
          c10 = (if isValid (mac_address (entities i)) \<and> \<not> truthy_str (macAddress c9)
                 then c9\<lparr>macAddress := mac_address (entities i)\<rparr> else c9);
          c11 = (if isValid (device_key (entities i)) \<and> \<not> truthy_str (deviceKey c10)
                 then c10\<lparr>deviceKey := device_key (entities i)\<rparr> else c10);
          c12 = (if payment_method (entities i) \<noteq> None \<and> paymentMethod c11 = None
                 then c11\<lparr>paymentMethod := payment_method (entities i)\<rparr> else c11)
      in c12)"

definition admin_owned :: "ConversationState option \<Rightarrow> bool" where
  "admin_owned s =
     (s \<in> set [Some Trial_active, Some Trial_expired, Some Awaiting_payment,
                Some Payment_pending, Some Active_subscriber, Some Needs_human])"

definition updateStateFromContext_auto :: "CustomerContext \<Rightarrow> CustomerContext" where
  "updateStateFromContext_auto c =
     (if admin_owned (state c) then c
      else if device c \<noteq> None \<and> (truthy_str (macAddress c) \<or> truthy_str (deviceKey c))
              \<and> contentPreference c \<noteq> None
      then c\<lparr>state := Some Trial_pending\<rparr>
      else if device c \<noteq> None \<and> (truthy_str (macAddress c) \<or> truthy_str (deviceKey c))
      then c\<lparr>state := Some Awaiting_content_pref\<rparr>
      else if device c \<noteq> None then c\<lparr>state := Some Awaiting_mac\<rparr>
      else if state c = Some New then c\<lparr>state := Some Awaiting_device\<rparr>
      else c)"

definition technical_text_auto :: "CustomerContext \<Rightarrow> string \<Rightarrow> string" where
  "technical_text_auto c msg =
     pict_warning @ '' TECHNICAL ISSUE'' @ newline @ newline
     @ ''Customer: '' @ interpolate (phone c) @ newline
     @ ''Device: '' @ (case device c of Some d \<Rightarrow> device_str d | None \<Rightarrow> ''Unknown'')
     @ newline @ newline
     @ ''Issue: '' @ dquote @ msg @ dquote"

text \<open>\<^verbatim>\<open>checkForAdminNotification(context, prevState, intent, message)\<close>: the
  notification, and the context as the payment branch leaves it.\<close>

definition checkForAdminNotification_auto ::
  "CustomerContext \<Rightarrow> ConversationState option \<Rightarrow> IntentResult \<Rightarrow> string
     \<Rightarrow> AdminNotification option \<times> CustomerContext" where
  "checkForAdminNotification_auto c prevState i msg =
     (if state c = Some Trial_pending \<and> prevState \<noteq> Some Trial_pending
      then (Some \<lparr>ntype = Trial_request, ntext = createTrialNotification c\<rparr>, c)
      else if intent i = ''payment'' \<and> isPaymentConfirmation msg
      then (let c' = c\<lparr>state := Some Payment_pending, paymentPending := Some True\<rparr>
            in (Some \<lparr>ntype = Payment_received, ntext = createPaymentNotification c'\<rparr>, c'))
      else if intent i = ''technical_issue''
      then (Some \<lparr>ntype = Technical_issue, ntext = technical_text_auto c msg\<rparr>, c)
      else (None, c))"

text \<open>\<^verbatim>\<open>generateAIResponse(context, message)\<close>: the model's text with the context it was
  given, or, when the call throws, the apology with a spread copy of the context in
  which \<open>needsHuman\<close> is set. (The private method is reached only after
  \<^verbatim>\<open>handleIncomingMessage\<close> found the client configured.)\<close>

definition generateAIResponse ::
  "addr \<Rightarrow> string \<Rightarrow> string outcome \<Rightarrow> world \<Rightarrow> ChatbotResponse \<times> world" where
  "generateAIResponse a msg call w =
     (case call of
        Resolved txt \<Rightarrow>
          (\<lparr>response_message = Raw txt, context_ref = a, shouldNotifyAdmin = False,
            adminNotification = None, response_intent = None\<rparr>, w)
      | Rejected err \<Rightarrow>
          (let (b, w') = alloc ((heap w a)\<lparr>needsHuman := Some True\<rparr>) w
           in (\<lparr>response_message = AI_error_apology, context_ref = b,
                shouldNotifyAdmin = True,
                adminNotification =
                  Some \<lparr>ntype = Escalation, ntext = ai_error_text (heap w a) err msg\<rparr>,
                response_intent = None\<rparr>, w')))"

definition processMessage_auto ::
  "addr \<Rightarrow> string \<Rightarrow> IntentResult \<Rightarrow> string outcome \<Rightarrow> world \<Rightarrow> ChatbotResponse \<times> world" where
  "processMessage_auto a msg i call w =
     (let prevState = state (heap w a);
          w1 = modify a updateStateFromContext_auto w;
          (response, w2) = generateAIResponse a msg call w1;
          (notification, c') = checkForAdminNotification_auto (heap w2 a) prevState i msg;
          w3 = modify a (\<lambda>_. c') w2
      in (case notification of
            Some n \<Rightarrow> (response\<lparr>shouldNotifyAdmin := True, adminNotification := Some n\<rparr>, w3)
          | None \<Rightarrow> (response, w3)))"

text \<open>The escalation branch shared by both copies of \<^verbatim>\<open>handleIncomingMessage\<close>.\<close>

definition escalate :: "string \<Rightarrow> addr \<Rightarrow> string \<Rightarrow> IntentResult \<Rightarrow> world \<Rightarrow> ChatbotResponse \<times> world" where
  "escalate ph a msg i w =
     (let w1 = modify a (\<lambda>c. c\<lparr>needsHuman := Some True\<rparr>) w;
          w2 = modify a (\<lambda>c. c\<lparr>state := Some Needs_human\<rparr>) w1;
          (_, w3) = updateContext ph a w2
      in (\<lparr>response_message = Escalation_reply, context_ref = a, shouldNotifyAdmin = True,
           adminNotification = Some \<lparr>ntype = Escalation, ntext = escalation_text ph i msg\<rparr>,
           response_intent = Some i\<rparr>, w3))"

text \<open>
  \<^verbatim>\<open>handleIncomingMessage(phone, message)\<close> is a straight line of statements. Its
  opening (fetch or create the context, stamp \<open>lastMessageAt\<close>, note the language, log
  the customer's message) and its close (log the reply, write the context of the
  response back through \<^verbatim>\<open>updateContext\<close>) are named, the rest is inline.
\<close>

definition receive_auto :: "string \<Rightarrow> string \<Rightarrow> turn \<Rightarrow> world \<Rightarrow> addr \<times> world" where
  "receive_auto ph msg tn w =
     (let (a, w1) = getOrCreateContext ph w;
          (t, w2) = tick w1;
          w3 = modify a (\<lambda>c. c\<lparr>lastMessageAt := Some t\<rparr>) w2;
          w4 = (if language (heap w3 a) = None \<and> detected_language tn \<noteq> En
                then modify a (\<lambda>c. c\<lparr>language := Some (detected_language tn)\<rparr>) w3
                else w3);
          (tm, w5) = tick w4
      in (a, addMessage ph \<lparr>msg_role = Role_user, msg_content = Raw msg, timestamp = tm\<rparr> w5))"

definition deliver :: "string \<Rightarrow> ChatbotResponse \<times> world \<Rightarrow> ChatbotResponse \<times> world" where
  "deliver ph rw =
     (let (response, w) = rw;
          (ta, w1) = tick w;
          w2 = addMessage ph \<lparr>msg_role = Role_assistant,
                 msg_content = response_message response, timestamp = ta\<rparr> w1;
          (_, w3) = updateContext ph (context_ref response) w2
      in (response, w3))"

definition handleIncomingMessage_auto ::
  "bool \<Rightarrow> (string \<Rightarrow> IntentResult option) \<Rightarrow> string \<Rightarrow> string \<Rightarrow> turn \<Rightarrow> world
     \<Rightarrow> exn + ChatbotResponse \<times> world" where
  "handleIncomingMessage_auto configured json_parse ph msg tn w =
     (if \<not> configured then Inl (Error ''AI service not configured'')
      else
        let (a, w1) = receive_auto ph msg tn w
        in case detectIntent configured json_parse (intent_call tn) msg of
             Inl e \<Rightarrow> Inl e
           | Inr i \<Rightarrow>
               (let w2 = modify a (updateContextFromIntent_auto i msg) w1
                in if shouldEscalateToHuman (heap w2 a) msg (intent i)
                   then Inr (escalate ph a msg i w2)
                   else Inr (deliver ph (processMessage_auto a msg i (reply_call tn) w2))))"

subsection \<open>The service that dispatches on the state\<close>

definition plain_response :: "reply \<Rightarrow> addr \<Rightarrow> ChatbotResponse" where
  "plain_response r a =
     \<lparr>response_message = r, context_ref = a, shouldNotifyAdmin = False,
      adminNotification = None, response_intent = None\<rparr>"

definition notifying_response :: "reply \<Rightarrow> addr \<Rightarrow> AdminNotification \<Rightarrow> ChatbotResponse" where
  "notifying_response r a n =
     \<lparr>response_message = r, context_ref = a, shouldNotifyAdmin = True,
      adminNotification = Some n, response_intent = None\<rparr>"

definition updateContextFromIntent_sm :: "IntentResult \<Rightarrow> CustomerContext \<Rightarrow> CustomerContext" where
  "updateContextFromIntent_sm i c =
     (let c1 = c\<lparr>sentiment := Some (sentiment_of i)\<rparr>;
          c2 = (if entity_device (entities i) \<noteq> None
                then c1\<lparr>device := entity_device (entities i)\<rparr> else c1);
          c3 = (if plan_interest (entities i) \<noteq> None
                then c2\<lparr>plan := plan_interest (entities i)\<rparr> else c2);
          c4 = (if content_preference (entities i) \<noteq> None
                then c3\<lparr>contentPreference := content_preference (entities i)\<rparr> else c3);
          c5 = (if truthy_str (mac_address (entities i))
                then c4\<lparr>macAddress := mac_address (entities i)\<rparr> else c4);
          c6 = (if truthy_str (device_key (entities i))
                then c5\<lparr>deviceKey := device_key (entities i)\<rparr> else c5);
          c7 = (if payment_method (entities i) \<noteq> None
                then c6\<lparr>paymentMethod := payment_method (entities i)\<rparr> else c6)
      in c7)"

definition handleNewConversation_sm ::
  "addr \<Rightarrow> string \<Rightarrow> IntentResult \<Rightarrow> world \<Rightarrow> ChatbotResponse \<times> world" where
  "handleNewConversation_sm a msg i w =
     (case extractDeviceType msg of
        Some d \<Rightarrow>
          (plain_response (Setup_instructions d) a,
           modify a (\<lambda>c. c\<lparr>device := Some d, state := Some Awaiting_mac\<rparr>) w)
      | None \<Rightarrow>
          (plain_response Greeting a, modify a (\<lambda>c. c\<lparr>state := Some Awaiting_device\<rparr>) w))"

definition handleDeviceSelection_sm ::
  "addr \<Rightarrow> string \<Rightarrow> IntentResult \<Rightarrow> world \<Rightarrow> ChatbotResponse \<times> world" where
  "handleDeviceSelection_sm a msg i w =
     (case (case entity_device (entities i) of
              Some d \<Rightarrow> Some d | None \<Rightarrow> extractDeviceType msg) of
        Some d \<Rightarrow>
          (plain_response (Setup_instructions d) a,
           modify a (\<lambda>c. c\<lparr>device := Some d, state := Some Awaiting_mac\<rparr>) w)
      | None \<Rightarrow> (plain_response Device_question a, w))"

text \<open>\<^verbatim>\<open>/[0-9a-f]{6,}/i.test(message)\<close>\<close>

definition has_hex_run :: "string \<Rightarrow> bool" where
  "has_hex_run msg =
     (regex_search (\<lambda>s. if 6 \<le> length s \<and> list_all is_hex (take 6 s)
                         then Some (takeWhile is_hex s) else None) msg \<noteq> None)"

definition handleMacCollection_sm ::
  "addr \<Rightarrow> string \<Rightarrow> IntentResult \<Rightarrow> world \<Rightarrow> ChatbotResponse \<times> world" where
  "handleMacCollection_sm a msg i w =
     (let mac = (if truthy_str (mac_address (entities i)) then mac_address (entities i)
                 else extractMacAddress msg)
      in if str_includes (toLowerCase msg) ''tivimate''
            \<or> str_includes (toLowerCase msg) ''tivi mate''
         then (plain_response Tivimate_content_question a,
               modify a (\<lambda>c. c\<lparr>device := Some Tivimate, state := Some Awaiting_content_pref\<rparr>) w)
         else if truthy_str mac \<or> length msg > 10 \<or> str_includes msg '':'' \<or> has_hex_run msg
         then (plain_response Got_device_details a,
               modify a (\<lambda>c. c\<lparr>macAddress := (if truthy_str mac then mac else Some msg),
                               state := Some Awaiting_content_pref\<rparr>) w)
         else (plain_response Mac_help a, w))"

definition handleContentPreference_sm ::
  "addr \<Rightarrow> string \<Rightarrow> IntentResult \<Rightarrow> world \<Rightarrow> ChatbotResponse \<times> world" where
  "handleContentPreference_sm a msg i w =
     (let pref = (case content_preference (entities i) of
                    Some p \<Rightarrow> Some p | None \<Rightarrow> extractContentPreference msg);
          w1 = (if mentions_adult msg
                then modify a (\<lambda>c. c\<lparr>wantsAdultContent := Some True\<rparr>) w else w);
          w2 = (case pref of
                  Some p \<Rightarrow> modify a (\<lambda>c. c\<lparr>contentPreference := Some p\<rparr>) w1
                | None \<Rightarrow> modify a (\<lambda>c. c\<lparr>contentPreference := Some English\<rparr>) w1);
          w3 = modify a (\<lambda>c. c\<lparr>state := Some Trial_pending\<rparr>) w2
      in (notifying_response Trial_setup a
            \<lparr>ntype = Trial_request, ntext = createTrialNotification (heap w3 a)\<rparr>, w3))"

definition handlePricingRequest_sm :: "addr \<Rightarrow> world \<Rightarrow> ChatbotResponse \<times> world" where
  "handlePricingRequest_sm a w =
     (plain_response (Pricing (plan (heap w a))) a,
      modify a (\<lambda>c. c\<lparr>state := Some Awaiting_payment\<rparr>) w)"

definition select_plan :: "string \<Rightarrow> CustomerContext \<Rightarrow> CustomerContext" where
  "select_plan lower c =
     (if str_includes lower ''lifetime'' then c\<lparr>plan := Some Lifetime\<rparr>
      else if str_includes lower ''2 year'' \<or> str_includes lower ''two year''
      then c\<lparr>plan := Some Two_years\<rparr>
      else if str_includes lower ''3 year'' \<or> str_includes lower ''three year''
      then c\<lparr>plan := Some Three_years\<rparr>
      else if str_includes lower ''year'' then c\<lparr>plan := Some Yearly\<rparr>
      else if str_includes lower ''month'' then c\<lparr>plan := Some Monthly\<rparr>
      else c)"

definition handlePaymentFlow_sm ::
  "addr \<Rightarrow> string \<Rightarrow> IntentResult \<Rightarrow> world \<Rightarrow> ChatbotResponse \<times> world" where
  "handlePaymentFlow_sm a msg i w =
     (let lower = toLowerCase msg
      in if str_includes lower ''revolut'' \<or> str_includes lower ''bank''
            \<or> str_includes lower ''iban''
         then (plain_response (Payment_instructions Revolut) a,
               modify a (\<lambda>c. c\<lparr>paymentMethod := Some Revolut\<rparr>) w)
         else if str_includes lower ''paypal''
         then (plain_response (Payment_instructions Paypal) a,
               modify a (\<lambda>c. c\<lparr>paymentMethod := Some Paypal\<rparr>) w)
         else
           let w1 = modify a (select_plan lower) w
           in if isPaymentConfirmation msg
              then (let w2 = modify a (\<lambda>c. c\<lparr>state := Some Payment_pending,
                                               paymentPending := Some True\<rparr>) w1
                    in (notifying_response Payment_verify_request a
                          \<lparr>ntype = Payment_received,
                           ntext = createPaymentNotification (heap w2 a)\<rparr>, w2))
              else (plain_response (Payment_options (plan (heap w1 a))) a, w1))"

definition handleTrialActive_sm ::
  "addr \<Rightarrow> string \<Rightarrow> IntentResult \<Rightarrow> string outcome \<Rightarrow> world \<Rightarrow> ChatbotResponse \<times> world" where
  "handleTrialActive_sm a msg i call w =
     (if intent i = ''pricing'' \<or> str_includes (toLowerCase msg) ''price''
         \<or> str_includes (toLowerCase msg) ''plan''
      then handlePricingRequest_sm a w
      else if intent i = ''payment'' \<or> str_includes (toLowerCase msg) ''yes''
              \<or> str_includes (toLowerCase msg) ''subscribe''
              \<or> str_includes (toLowerCase msg) ''buy''
      then handlePaymentFlow_sm a msg i (modify a (\<lambda>c. c\<lparr>state := Some Awaiting_payment\<rparr>) w)
      else generateAIResponse a msg call w)"

definition receipt_text :: "CustomerContext \<Rightarrow> string \<Rightarrow> string" where
  "receipt_text c msg =
     pict_camera @ '' Customer sent what looks like a receipt:'' @ newline @ newline
     @ dquote @ take 100 msg @ ''...'' @ dquote @ newline @ newline
     @ ''Phone: '' @ interpolate (phone c) @ newline
     @ ''Plan: '' @ interpolate (map_option plan_str (plan c)) @ newline @ newline
     @ ''Please verify and activate.''"

definition handlePaymentPending_sm ::
  "addr \<Rightarrow> string \<Rightarrow> IntentResult \<Rightarrow> world \<Rightarrow> ChatbotResponse \<times> world" where
  "handlePaymentPending_sm a msg i w =
     (notifying_response Payment_verifying a
        \<lparr>ntype = Payment_received, ntext = receipt_text (heap w a) msg\<rparr>, w)"

definition technical_text_sm :: "CustomerContext \<Rightarrow> string \<Rightarrow> string" where
  "technical_text_sm c msg =
     pict_warning @ '' TECHNICAL ISSUE'' @ newline @ newline
     @ ''Customer: '' @ interpolate (phone c) @ newline
     @ ''Plan: '' @ (case plan c of Some p \<Rightarrow> plan_str p | None \<Rightarrow> ''Trial'') @ newline
     @ ''Device: '' @ (case device c of Some d \<Rightarrow> device_str d | None \<Rightarrow> ''Unknown'')
     @ newline @ newline
     @ ''Issue: '' @ dquote @ msg @ dquote"

definition handleTechnicalIssue_sm :: "addr \<Rightarrow> string \<Rightarrow> world \<Rightarrow> ChatbotResponse \<times> world" where
  "handleTechnicalIssue_sm a msg w =
     (notifying_response Technical_questions a
        \<lparr>ntype = Technical_issue, ntext = technical_text_sm (heap w a) msg\<rparr>, w)"

definition handleActiveSubscriber_sm ::
  "addr \<Rightarrow> string \<Rightarrow> IntentResult \<Rightarrow> string outcome \<Rightarrow> world \<Rightarrow> ChatbotResponse \<times> world" where
  "handleActiveSubscriber_sm a msg i call w =
     (if intent i = ''technical_issue'' then handleTechnicalIssue_sm a msg w
      else generateAIResponse a msg call w)"

definition processMessage_sm ::
  "addr \<Rightarrow> string \<Rightarrow> IntentResult \<Rightarrow> string outcome \<Rightarrow> world \<Rightarrow> ChatbotResponse \<times> world" where
  "processMessage_sm a msg i call w =
     (if intent i = ''pricing'' then handlePricingRequest_sm a w
      else if intent i = ''technical_issue'' then handleTechnicalIssue_sm a msg w
      else case state (heap w a) of
             Some New \<Rightarrow> handleNewConversation_sm a msg i w
           | Some Awaiting_device \<Rightarrow> handleDeviceSelection_sm a msg i w
           | Some Awaiting_mac \<Rightarrow> handleMacCollection_sm a msg i w
           | Some Awaiting_content_pref \<Rightarrow> handleContentPreference_sm a msg i w
           | Some Trial_active \<Rightarrow> handleTrialActive_sm a msg i call w
           | Some Trial_expired \<Rightarrow> handlePaymentFlow_sm a msg i w
           | Some Awaiting_payment \<Rightarrow> handlePaymentFlow_sm a msg i w
           | Some Payment_pending \<Rightarrow> handlePaymentPending_sm a msg i w
           | Some Active_subscriber \<Rightarrow> handleActiveSubscriber_sm a msg i call w
           | _ \<Rightarrow> generateAIResponse a msg call w)"

definition receive_sm :: "string \<Rightarrow> string \<Rightarrow> world \<Rightarrow> addr \<times> world" where
  "receive_sm ph msg w =
     (let (a, w1) = getOrCreateContext ph w;
          (t, w2) = tick w1;
          w3 = modify a (\<lambda>c. c\<lparr>lastMessageAt := Some t\<rparr>) w2;
          (tm, w4) = tick w3
      in (a, addMessage ph \<lparr>msg_role = Role_user, msg_content = Raw msg, timestamp = tm\<rparr> w4))"

definition handleIncomingMessage_sm ::
  "bool \<Rightarrow> (string \<Rightarrow> IntentResult option) \<Rightarrow> string \<Rightarrow> string \<Rightarrow> turn \<Rightarrow> world
     \<Rightarrow> exn + ChatbotResponse \<times> world" where
  "handleIncomingMessage_sm configured json_parse ph msg tn w =
     (if \<not> configured then Inl (Error ''AI service not configured'')
      else
        let (a, w1) = receive_sm ph msg w
        in case detectIntent configured json_parse (intent_call tn) msg of
             Inl e \<Rightarrow> Inl e
           | Inr i \<Rightarrow>
               (let w2 = modify a (updateContextFromIntent_sm i) w1
                in if shouldEscalateToHuman (heap w2 a) msg (intent i)
                   then Inr (escalate ph a msg i w2)
                   else Inr (deliver ph (processMessage_sm a msg i (reply_call tn) w2))))"

section \<open>Runs of the system\<close>

definition initial_world :: "(nat \<Rightarrow> time) \<Rightarrow> world" where
  "initial_world clk =
     \<lparr>heap = (\<lambda>_. empty_object), next_addr = 0, conversations = Map.empty,
      messageHistory = Map.empty, clock = clk, ticks = 0\<rparr>"

definition example_clock :: "nat \<Rightarrow> time" where
  "example_clock n = 1000 * int n"

text \<open>The context stored for a phone number, if there is one.\<close>

definition stored :: "string \<Rightarrow> world \<Rightarrow> CustomerContext option" where
  "stored ph w = map_option (heap w) (conversations w ph)"

text \<open>The context a new phone number starts with.\<close>

definition fresh_context :: "string \<Rightarrow> time \<Rightarrow> time \<Rightarrow> CustomerContext" where
  "fresh_context ph tc tu =
     empty_object\<lparr>phone := Some ph, state := Some New, followUpsSent := Some 0,
                  needsHuman := Some False, createdAt := Some tc, updatedAt := Some tu\<rparr>"

text \<open>What \<^verbatim>\<open>updateContext\<close> leaves in the record: the update assigned over it, after
  the previous state was noted, with the new time stamp.\<close>

definition merged_record :: "CustomerContext \<Rightarrow> CustomerContext \<Rightarrow> time \<Rightarrow> CustomerContext" where
  "merged_record old upd t =
     (object_assign
        (if state upd \<noteq> None \<and> state upd \<noteq> state old
         then old\<lparr>previousState := state old\<rparr> else old) upd)\<lparr>updatedAt := Some t\<rparr>"



subsection \<open>Example inputs\<close>

definition example_phone :: string where
  "example_phone = ''353871234567''"

text \<open>A classification with the given label, neutral sentiment and no entities.\<close>

definition labelled :: "string \<Rightarrow> IntentResult" where
  "labelled l = (default_intent 1)\<lparr>intent := l\<rparr>"

text \<open>A stand-in for \<^verbatim>\<open>JSON.parse\<close> in examples: a label between braces reads as the
  classification with that label, anything else does not parse.\<close>

definition example_parse :: "string \<Rightarrow> IntentResult option" where
  "example_parse j =
     (case j of
        [] \<Rightarrow> None
      | c # rest \<Rightarrow>
          if c = CHR ''{'' \<and> rest \<noteq> [] \<and> last rest = CHR ''}''
          then Some (labelled (butlast rest)) else None)"

definition example_turn :: "string \<Rightarrow> string outcome \<Rightarrow> turn" where
  "example_turn l reply =
     \<lparr>intent_call = Resolved (''{'' @ l @ ''}''), reply_call = reply, detected_language = En\<rparr>"

text \<open>A store holding one customer whose trial has expired and who was sent three
  follow-ups.\<close>

definition ghosted_world :: world where
  "ghosted_world =
     (initial_world example_clock)
       \<lparr>heap := (\<lambda>_. empty_object)
                  (0 := (fresh_context example_phone 0 0)
                          \<lparr>state := Some Trial_expired, followUpsSent := Some 3,
                           sentiment := Some Neutral\<rparr>),
        next_addr := 1,
        conversations := [example_phone \<mapsto> 0]\<rparr>"

text \<open>The store after a first message that asks for a refund, handled by the service
  that dispatches on the state.\<close>

definition escalated_world :: world where
  "escalated_world =
     snd (projr (handleIncomingMessage_sm True example_parse example_phone
                   ''I want a refund'' (example_turn ''other'' (Resolved ''ok''))
                   (initial_world example_clock)))"

definition example_credentials :: Credentials where
  "example_credentials =
     \<lparr>username = ''joe'', password = ''secret'', url = ''http://tv.example'', m3uUrl = None\<rparr>"


subsection \<open>The three escalation triggers\<close>

text \<open>The explicit request, the frustrated sentiment and the keyword in the text, for
  the classification of a turn.\<close>

definition triggers_escalation :: "IntentResult \<Rightarrow> string \<Rightarrow> bool" where
  "triggers_escalation i msg =
     (intent i = ''human_request'' \<or> sentiment_of i = Frustrated
      \<or> some_includes escalationKeywords (toLowerCase msg))"

text \<open>
  A world is well formed when every stored address has been allocated and no two phone
  numbers share a context object.
\<close>

definition wf_world :: "world \<Rightarrow> bool" where
  "wf_world w =
     ((\<forall>ph a. conversations w ph = Some a \<longrightarrow> a < next_addr w)
      \<and> (\<forall>ph q a. conversations w ph = Some a \<and> conversations w q = Some a \<longrightarrow> ph = q))"

definition prev_absent :: "world \<Rightarrow> bool" where
  "prev_absent w = (\<forall>ph a. conversations w ph = Some a \<longrightarrow> previousState (heap w a) = None)"

text \<open>
  A turn of the auto-advancing service in which the reply call throws while the
  classifier says \<open>payment\<close> and the text confirms a payment: the spread copy of the
  failure branch is taken before the payment branch writes to the stored context.
\<close>

definition payment_after_failure :: "IntentResult \<Rightarrow> string \<Rightarrow> turn \<Rightarrow> bool" where
  "payment_after_failure i msg tn =
     ((case reply_call tn of Rejected e \<Rightarrow> True | Resolved txt \<Rightarrow> False)
      \<and> intent i = ''payment'' \<and> isPaymentConfirmation msg)"

text \<open>
  The worlds the system gets into from an empty store by inbound messages (of either
  copy of the service; for the auto-advancing one, turns other than the one just
  described) and by the two admin activations.
\<close>

inductive reachable :: "(string \<Rightarrow> IntentResult option) \<Rightarrow> world \<Rightarrow> bool"
  for json_parse :: "string \<Rightarrow> IntentResult option" where
  start: "reachable json_parse (initial_world clk)"
| message_sm:
    "reachable json_parse w \<Longrightarrow>
     handleIncomingMessage_sm True json_parse ph msg tn w = Inr (r, w') \<Longrightarrow>
     reachable json_parse w'"
| message_auto:
    "reachable json_parse w \<Longrightarrow>
     handleIncomingMessage_auto True json_parse ph msg tn w = Inr (r, w') \<Longrightarrow>
     detectIntent True json_parse (intent_call tn) msg = Inr i \<Longrightarrow>
     \<not> payment_after_failure i msg tn \<Longrightarrow>
     reachable json_parse w'"
| trial: "reachable json_parse w \<Longrightarrow> reachable json_parse (snd (activateTrial ph creds w))"
| subscription:
    "reachable json_parse w \<Longrightarrow> reachable json_parse (snd (activateSubscription ph p creds w))"

text \<open>What a handler leaves alone: every object but the one at \<open>a\<close> (and any it
  allocates), and the store's map.\<close>

definition local_step :: "addr \<Rightarrow> world \<Rightarrow> world \<Rightarrow> bool" where
  "local_step a w w' =
     (conversations w' = conversations w \<and> next_addr w \<le> next_addr w'
      \<and> (\<forall>x. x < next_addr w \<and> x \<noteq> a \<longrightarrow> heap w' x = heap w x))"

definition keeps :: "addr \<Rightarrow> world \<Rightarrow> ChatbotResponse \<times> world \<Rightarrow> bool" where
  "keeps a w rw =
     (local_step a w (snd rw)
      \<and> previousState (heap (snd rw) a) = previousState (heap w a)
      \<and> state (heap (snd rw) (context_ref (fst rw))) = state (heap (snd rw) a)
      \<and> previousState (heap (snd rw) (context_ref (fst rw))) = previousState (heap (snd rw) a))"

text \<open>The fields \<^verbatim>\<open>updateContextFromIntent\<close> never writes.\<close>

definition collected_only :: "CustomerContext \<Rightarrow> CustomerContext \<Rightarrow> bool" where
  "collected_only c c' =
     (ctx_id c' = ctx_id c \<and> phone c' = phone c \<and> name c' = name c \<and> state c' = state c
      \<and> previousState c' = previousState c \<and> language c' = language c
      \<and> trialStartedAt c' = trialStartedAt c \<and> trialExpiresAt c' = trialExpiresAt c
      \<and> subscribedAt c' = subscribedAt c \<and> expiresAt c' = expiresAt c
      \<and> paymentPending c' = paymentPending c \<and> credentials c' = credentials c
      \<and> lastMessageAt c' = lastMessageAt c \<and> followUpsSent c' = followUpsSent c
      \<and> lastFollowUpType c' = lastFollowUpType c \<and> needsHuman c' = needsHuman c
      \<and> escalationReason c' = escalationReason c \<and> createdAt c' = createdAt c
      \<and> updatedAt c' = updatedAt c)"

section \<open>Properties: MAC extraction\<close>


lemma all_less_Suc3: "(\<forall>k<n + 3. P k) \<longleftrightarrow> P 0 \<and> P (Suc 0) \<and> P (Suc (Suc 0)) \<and> (\<forall>k<n. P (k + 3))" for n :: nat
proof
  assume a: "\<forall>k<n + 3. P k"
  then show "P 0 \<and> P (Suc 0) \<and> P (Suc (Suc 0)) \<and> (\<forall>k<n. P (k + 3))" by simp
next
  assume a: "P 0 \<and> P (Suc 0) \<and> P (Suc (Suc 0)) \<and> (\<forall>k<n. P (k + 3))"
  show "\<forall>k<n + 3. P k"
  proof (intro allI impI)
    fix k assume "k < n + 3"
    then have "k = 0 \<or> k = Suc 0 \<or> k = Suc (Suc 0) \<or> (k - 3 < n \<and> k = (k - 3) + 3)"
      by arith
    then show "P k" using a by (elim disjE conjE) (simp_all, metis)
  qed
qed

lemma hex_pairs_pos:
  "hex_pairs n s \<longleftrightarrow> (3 * n + 2 \<le> length s \<and> (\<forall>k<3 * n + 2. pos_ok s k))"
proof (induction n s rule: hex_pairs.induct)
  case (1 a b rest)
  have "(\<forall>k<2. pos_ok (a # b # rest) k) \<longleftrightarrow> pos_ok (a # b # rest) 0 \<and> pos_ok (a # b # rest) (Suc 0)"
    by (metis One_nat_def less_2_cases_iff)
  then show ?case by (simp add: pos_ok_def numeral_2_eq_2)
next
  case (2 n a b s rest)
  have p0: "pos_ok (a # b # s # rest) 0 = is_hex a" by (simp add: pos_ok_def)
  have p1: "pos_ok (a # b # s # rest) (Suc 0) = is_hex b" by (simp add: pos_ok_def)
  have p2: "pos_ok (a # b # s # rest) (Suc (Suc 0)) = is_mac_sep s" by (simp add: pos_ok_def)
  have nth3: "(a # b # s # rest) ! (k + 3) = rest ! k" for k
    by (simp add: numeral_3_eq_3)
  have p3: "pos_ok (a # b # s # rest) (k + 3) = pos_ok rest k" for k
    unfolding pos_ok_def nth3 by simp
  have e: "3 * Suc n + 2 = (3 * n + 2) + 3" by simp
  have "(\<forall>k<(3 * n + 2) + 3. pos_ok (a # b # s # rest) k) \<longleftrightarrow>
        (is_hex a \<and> is_hex b \<and> is_mac_sep s \<and> (\<forall>k<3 * n + 2. pos_ok rest k))"
    unfolding all_less_Suc3 [of "3 * n + 2" "pos_ok (a # b # s # rest)"] p0 p1 p2 p3 ..
  then show ?case using 2 unfolding e by auto
qed (auto)

lemma hex_pairs_form: "hex_pairs 5 s \<longleftrightarrow> mac_separated_form (take 17 s)"
proof -
  have "mac_separated_form (take 17 s) \<longleftrightarrow> 17 \<le> length s \<and> (\<forall>k<17. pos_ok (take 17 s) k)"
    by (auto simp: mac_separated_form_def list_all_iff pos_ok_def)
  also have "\<dots> \<longleftrightarrow> 17 \<le> length s \<and> (\<forall>k<17. pos_ok s k)"
    by (auto simp: pos_ok_def)
  finally show ?thesis using hex_pairs_pos [of 5 s] by simp
qed

lemma match_bare_form: "match_mac_bare s \<noteq> None \<longleftrightarrow> mac_bare_form (take 12 s)"
  by (auto simp: match_mac_bare_def mac_bare_form_def)

lemma find_map_comp: "List.find P (map f xs) = map_option f (List.find (P \<circ> f) xs)"
  by (induction xs) auto

lemma find_upt_Suc:
  "List.find P [0..<Suc n] = (if P 0 then Some 0 else map_option Suc (List.find (P \<circ> Suc) [0..<n]))"
proof -
  have "[0..<Suc n] = 0 # map Suc [0..<n]"
    by (simp add: map_Suc_upt upt_conv_Cons del: upt_Suc)
  then show ?thesis by (simp add: find_map_comp del: upt_Suc)
qed

lemma regex_search_window:
  "regex_search (\<lambda>t. if P (take n t) then Some (take n t) else None) s = first_window P n s"
  unfolding first_window_def
proof (induction s)
  case Nil
  then show ?case by simp
next
  case (Cons c cs)
  show ?case using Cons
    by (subst find_upt_Suc) (auto simp: comp_def option.map_comp simp del: upt_Suc)
qed

lemma search_separated: "regex_search match_mac_separated s = first_window mac_separated_form 17 s"
proof -
  have "match_mac_separated = (\<lambda>t. if mac_separated_form (take 17 t) then Some (take 17 t) else None)"
    by (rule ext) (simp add: match_mac_separated_def hex_pairs_form)
  then show ?thesis by (metis regex_search_window)
qed

lemma search_bare: "regex_search match_mac_bare s = first_window mac_bare_form 12 s"
proof -
  have "match_mac_bare = (\<lambda>t. if mac_bare_form (take 12 t) then Some (take 12 t) else None)"
    by (rule ext) (auto simp: match_mac_bare_def mac_bare_form_def)
  then show ?thesis by (metis regex_search_window)
qed

text \<open>
  Claim C8. \<^verbatim>\<open>extractMacAddress\<close> answers the leftmost colon- or dash-separated MAC of
  the message, or, when the message holds none, the leftmost twelve hex digits in a
  row, in upper case, and nothing when the message holds neither; the three examples of
  the specification come out as stated.
\<close>

theorem extractMacAddress_first_match:
  "extractMacAddress message = extract_mac_spec message
   \<and> extractMacAddress ''AA:BB:CC:DD:EE:FF'' = Some ''AA:BB:CC:DD:EE:FF''
   \<and> extractMacAddress ''aabbccddeeff'' = Some ''AABBCCDDEEFF''
   \<and> extractMacAddress ''no mac here'' = None"
proof -
  have 1: "extractMacAddress message = extract_mac_spec message"
    by (simp add: extractMacAddress_def macPatterns_def extract_mac_spec_def
        search_separated search_bare split: option.splits)
  have 2: "extractMacAddress ''AA:BB:CC:DD:EE:FF'' = Some ''AA:BB:CC:DD:EE:FF''" by code_simp
  have 3: "extractMacAddress ''aabbccddeeff'' = Some ''AABBCCDDEEFF''" by code_simp
  have 4: "extractMacAddress ''no mac here'' = None" by code_simp
  from 1 2 3 4 show ?thesis by blast
qed

section \<open>Properties: role alternation\<close>

lemma join_contents_snoc: "xs \<noteq> [] \<Longrightarrow> join_contents (xs @ [y]) = join_contents xs @ newline @ y"
  by (induction xs rule: join_contents.induct) auto

lemma merge_run_snoc:
  "r \<noteq> [] \<Longrightarrow> merge_run (r @ [m]) = (merge_run r)\<lparr>content := content (merge_run r) @ newline @ content m\<rparr>"
  by (simp add: merge_run_def join_contents_snoc)

lemma role_merge_run [simp]: "role (merge_run r) = role (hd r)"
  by (simp add: merge_run_def)

lemma is_run_snoc: "is_run r \<Longrightarrow> role m = role (hd r) \<Longrightarrow> is_run (r @ [m])"
  by (auto simp: is_run_def)

lemma is_run_single [simp]: "is_run [m]"
  by (simp add: is_run_def)

lemma merge_run_single [simp]: "merge_run [m] = m"
  by (simp add: merge_run_def)

lemma merge_loop_runs:
  "\<exists>runs. concat runs = msgs \<and> list_all is_run runs
      \<and> distinct_adj (map (\<lambda>r. role (hd r)) runs)
      \<and> foldl merge_step [] msgs = map merge_run runs"
proof (induction msgs rule: rev_induct)
  case Nil
  show ?case by (rule exI [of _ "[]"]) simp
next
  case (snoc m msgs)
  then obtain runs where c: "concat runs = msgs" and r: "list_all is_run runs"
    and d: "distinct_adj (map (\<lambda>r. role (hd r)) runs)"
    and f: "foldl merge_step [] msgs = map merge_run runs" by blast
  show ?case
  proof (cases runs rule: rev_cases)
    case Nil
    with c f show ?thesis
      by (intro exI [of _ "[[m]]"]) (simp add: merge_step_def)
  next
    case (snoc rs r0)
    have r0: "is_run r0" and rs: "list_all is_run rs" using r snoc by auto
    then have ne: "r0 \<noteq> []" by (simp add: is_run_def)
    show ?thesis
    proof (cases "role (hd r0) = role m")
      case True
      have "foldl merge_step [] (msgs @ [m]) = map merge_run (rs @ [r0 @ [m]])"
        using f snoc True ne by (simp add: merge_step_def merge_run_snoc)
      moreover have "concat (rs @ [r0 @ [m]]) = msgs @ [m]" using c snoc by simp
      moreover have "list_all is_run (rs @ [r0 @ [m]])" using rs r0 True by (simp add: is_run_snoc)
      moreover have "distinct_adj (map (\<lambda>r. role (hd r)) (rs @ [r0 @ [m]]))"
        using d snoc ne by (simp add: distinct_adj_append_iff)
      ultimately show ?thesis by blast
    next
      case False
      have "foldl merge_step [] (msgs @ [m]) = map merge_run (runs @ [[m]])"
        using f snoc False by (simp add: merge_step_def)
      moreover have "concat (runs @ [[m]]) = msgs @ [m]" using c by simp
      moreover have "list_all is_run (runs @ [[m]])" using r by simp
      moreover have "distinct_adj (map (\<lambda>r. role (hd r)) (runs @ [[m]]))"
        using d snoc False by (simp add: distinct_adj_append_iff)
      ultimately show ?thesis by blast
    qed
  qed
qed

lemma ensure_eq_drop: "ensureAlternatingRoles msgs = drop_leading_assistant (foldl merge_step [] msgs)"
proof -
  have "(r \<noteq> User) = (r = Assistant)" for r by (cases r) auto
  then show ?thesis
    by (cases msgs) (simp_all add: ensureAlternatingRoles_def drop_leading_assistant_def Let_def)
qed

lemma distinct_adj_tl: "distinct_adj xs \<Longrightarrow> distinct_adj (tl xs)"
  by (cases xs) (auto simp: distinct_adj_Cons)

lemma drop_leading_alternates:
  "distinct_adj (map role ms) \<Longrightarrow> distinct_adj (map role (drop_leading_assistant ms))"
  by (auto simp: drop_leading_assistant_def map_tl distinct_adj_tl)

lemma not_assistant [simp]: "(r \<noteq> Assistant) = (r = User)"
  by (cases r) auto

lemma drop_leading_starts_user:
  assumes "distinct_adj (map role ms)"
  shows "drop_leading_assistant ms = [] \<or> role (hd (drop_leading_assistant ms)) = User"
proof (cases ms)
  case Nil
  then show ?thesis by (simp add: drop_leading_assistant_def)
next
  case (Cons m ms')
  show ?thesis
  proof (cases "role m")
    case User
    with Cons show ?thesis by (simp add: drop_leading_assistant_def)
  next
    case Assistant
    show ?thesis
    proof (cases ms')
      case Nil
      with Cons Assistant show ?thesis by (simp add: drop_leading_assistant_def)
    next
      case (Cons n ns)
      with \<open>ms = m # ms'\<close> assms Assistant have "role n = User" by (cases "role n") auto
      with Cons \<open>ms = m # ms'\<close> Assistant show ?thesis by (simp add: drop_leading_assistant_def)
    qed
  qed
qed

text \<open>
  Claim C9. The input splits into runs of one role each, neighbouring runs having
  different roles; the result is these runs, each merged into one message (contents in
  order, joined by newlines), without the first one when that is an assistant turn. The
  roles of the result alternate strictly, and the result is empty or starts with a user
  turn.
\<close>

theorem ensureAlternatingRoles_merges_runs:
  "(\<exists>runs. concat runs = msgs \<and> list_all is_run runs
      \<and> distinct_adj (map (\<lambda>r. role (hd r)) runs)
      \<and> ensureAlternatingRoles msgs = drop_leading_assistant (map merge_run runs))
   \<and> distinct_adj (map role (ensureAlternatingRoles msgs))
   \<and> (ensureAlternatingRoles msgs = [] \<or> role (hd (ensureAlternatingRoles msgs)) = User)"
proof -
  obtain runs where c: "concat runs = msgs" and r: "list_all is_run runs"
    and d: "distinct_adj (map (\<lambda>r. role (hd r)) runs)"
    and f: "foldl merge_step [] msgs = map merge_run runs"
    using merge_loop_runs by blast
  have alt: "distinct_adj (map role (map merge_run runs))" using d by (simp add: comp_def)
  have e: "ensureAlternatingRoles msgs = drop_leading_assistant (map merge_run runs)"
    by (simp add: ensure_eq_drop f)
  show ?thesis
    using c r d e drop_leading_alternates [OF alt] drop_leading_starts_user [OF alt] by auto
qed

section \<open>Properties: follow-up scheduling\<close>

text \<open>
  Claim C3, as stated, fails: nineteen hours into a trial with no follow-up sent, the
  computation passes over the 18-hour rule (it asks for less than 18 hours elapsed) and
  answers the 23-hour follow-up, which is not due yet.
\<close>

theorem followup_19h_counterexample:
  "calculateFollowUpTime
     (empty_object\<lparr>state := Some Trial_active, trialStartedAt := Some 0, followUpsSent := Some 0\<rparr>)
     (19 * 60 * 60 * 1000)
   = Some \<lparr>fu_type = ''trial_23h'', sendAt = 23 * 60 * 60 * 1000\<rparr>
   \<and> \<not> needsFollowUp
     (empty_object\<lparr>state := Some Trial_active, trialStartedAt := Some 0, followUpsSent := Some 0\<rparr>)
     (19 * 60 * 60 * 1000) (19 * 60 * 60 * 1000)"
  by (simp add: calculateFollowUpTime_def needsFollowUp_def trial_followup_def empty_object_def
      hours_between_def sent_eq_def sent_le_def)

text \<open>
  Claim C3, amended. For every context in \<open>trial_active\<close> whose trial started nineteen
  hours before \<open>now\<close> and that has no follow-up sent, the computation returns type
  \<open>trial_23h\<close> with the send time at start plus 23 hours, which lies after \<open>now\<close>: the
  follow-up is not due.
\<close>

theorem calculateFollowUpTime_after_19h:
  assumes "state c = Some Trial_active" and "trialStartedAt c = Some start"
    and "followUpsSent c = Some 0" and "now - start = 19 * 60 * 60 * 1000"
  shows "calculateFollowUpTime c now
           = Some \<lparr>fu_type = ''trial_23h'', sendAt = start + 23 * 60 * 60 * 1000\<rparr>
         \<and> now < start + 23 * 60 * 60 * 1000
         \<and> \<not> needsFollowUp c now now"
  using assms
  by (simp add: calculateFollowUpTime_def needsFollowUp_def trial_followup_def
      hours_between_def sent_eq_def sent_le_def)

theorem calculateFollowUpTime_after_19h_witness:
  "calculateFollowUpTime
     (empty_object\<lparr>state := Some Trial_active, trialStartedAt := Some 1000, followUpsSent := Some 0\<rparr>)
     68401000
   = Some \<lparr>fu_type = ''trial_23h'', sendAt = 82801000\<rparr>
   \<and> (68401000 :: int) < 82801000"
  using calculateFollowUpTime_after_19h [of
     "empty_object\<lparr>state := Some Trial_active, trialStartedAt := Some 1000, followUpsSent := Some 0\<rparr>"
     1000 68401000]
  by (simp add: empty_object_def)

text \<open>The 18-hour follow-up is only ever computed ahead of its send time.\<close>

lemma trial_18h_not_due:
  assumes "calculateFollowUpTime c now = Some f" and "fu_type f = ''trial_18h''"
  shows "now < sendAt f"
  using assms
  by (auto simp: calculateFollowUpTime_def trial_followup_def ghoster_followup_def
      post_trial_followup_def hours_between_def split: option.splits if_splits)

section \<open>Properties: intent detection\<close>

text \<open>
  Claim C7. \<^verbatim>\<open>detectIntent\<close> never raises: without a client it returns the default
  with confidence 0; after a model call that threw, whose text holds no braces, or whose
  braces do not parse, it returns the default with confidence one half; otherwise the
  parsed result. The default is intent \<open>other\<close>, no entities, sentiment \<open>neutral\<close>,
  \<open>needs_human\<close> false.
\<close>

theorem detectIntent_never_raises:
  "detectIntent False json_parse call msg = Inr (default_intent 0)
   \<and> detectIntent True json_parse (Rejected e) msg = Inr (default_intent (1 / 2))
   \<and> detectIntent True json_parse (Resolved txt) msg
       = (case json_match txt of
            None \<Rightarrow> Inr (default_intent (1 / 2))
          | Some j \<Rightarrow> (case json_parse j of
                         None \<Rightarrow> Inr (default_intent (1 / 2))
                       | Some r \<Rightarrow> Inr r))
   \<and> \<not> isl (detectIntent configured json_parse call msg)
   \<and> intent (default_intent c) = ''other'' \<and> confidence (default_intent c) = c
   \<and> entities (default_intent c) = no_entities
   \<and> sentiment_of (default_intent c) = Neutral \<and> \<not> needs_human (default_intent c)"
  by (cases call) (auto simp: detectIntent_def detect_try_def default_intent_def split: option.splits sum.splits)

section \<open>Properties: the store\<close>

lemma pick_simps [simp]: "pick None old = old" "pick (Some v) old = Some v" "pick x x = x"
  by (simp_all add: pick_def split: option.splits)

lemma object_assign_self [simp]: "object_assign c c = c"
  by (simp add: object_assign_def)

lemma tick_eq [simp]: "tick w = (clock w (ticks w), w\<lparr>ticks := Suc (ticks w)\<rparr>)"
  by (simp add: tick_def)

lemma modify_fields [simp]:
  "heap (modify a f w) = (heap w)(a := f (heap w a))"
  "conversations (modify a f w) = conversations w"
  "next_addr (modify a f w) = next_addr w"
  "messageHistory (modify a f w) = messageHistory w"
  "clock (modify a f w) = clock w"
  "ticks (modify a f w) = ticks w"
  by (simp_all add: modify_def)

lemma addMessage_fields [simp]:
  "heap (addMessage ph m w) = heap w"
  "conversations (addMessage ph m w) = conversations w"
  "next_addr (addMessage ph m w) = next_addr w"
  "clock (addMessage ph m w) = clock w"
  "ticks (addMessage ph m w) = ticks w"
  by (simp_all add: addMessage_def Let_def)

lemma getOrCreateContext_old:
  "conversations w ph = Some a \<Longrightarrow> getOrCreateContext ph w = (a, w)"
  by (simp add: getOrCreateContext_def)

lemma getOrCreateContext_new:
  "conversations w ph = None \<Longrightarrow>
   getOrCreateContext ph w =
     (next_addr w,
      w\<lparr>ticks := Suc (Suc (ticks w)),
        heap := (heap w)(next_addr w :=
                  fresh_context ph (clock w (ticks w)) (clock w (Suc (ticks w)))),
        next_addr := Suc (next_addr w),
        conversations := (conversations w)(ph \<mapsto> next_addr w)\<rparr>)"
  by (simp add: getOrCreateContext_def alloc_def fresh_context_def)

lemma getOrCreateContext_stored:
  "getOrCreateContext ph w = (a, w1) \<Longrightarrow> conversations w1 ph = Some a"
  by (cases "conversations w ph") (auto simp: getOrCreateContext_new getOrCreateContext_old)

lemma updateContext_alias:
  "conversations w ph = Some a \<Longrightarrow>
   updateContext ph a w =
     (a, (modify a (\<lambda>c. c\<lparr>updatedAt := Some (clock w (ticks w))\<rparr>) w)\<lparr>ticks := Suc (ticks w)\<rparr>)"
proof -
  assume c: "conversations w ph = Some a"
  have m: "(conversations w)(ph \<mapsto> a) = conversations w" using c by (rule map_upd_triv)
  show ?thesis
    unfolding updateContext_def getOrCreateContext_old [OF c] Let_def prod.case tick_eq
    by (simp add: m)
qed


lemma updateContext_result:
  assumes g: "getOrCreateContext ph w = (a, w1)"
  shows "updateContext ph u w =
     (a, w1\<lparr>heap := (heap w1)(a := merged_record (heap w1 a) (heap w1 u) (clock w1 (ticks w1))),
          ticks := Suc (ticks w1)\<rparr>)"
proof -
  have c: "conversations w1 ph = Some a" using g by (rule getOrCreateContext_stored)
  have m: "(conversations w1)(ph \<mapsto> a) = conversations w1" using c by (rule map_upd_triv)
  show ?thesis
  proof (cases "u = a")
    case True
    then show ?thesis
      unfolding updateContext_def g Let_def prod.case tick_eq
      by (simp add: m merged_record_def modify_def)
  next
    case False
    then show ?thesis
      unfolding updateContext_def g Let_def prod.case tick_eq
      by (simp add: m merged_record_def modify_def)
  qed
qed






section \<open>Properties: subscription activation\<close>




section \<open>Properties: what a turn leaves alone\<close>

lemma local_refl [simp]: "local_step a w w"
  by (simp add: local_step_def)

lemma local_trans: "local_step a w w1 \<Longrightarrow> local_step a w1 w2 \<Longrightarrow> local_step a w w2"
  by (auto simp: local_step_def)

lemma local_modify [simp]: "local_step a w (modify a f w)"
  by (simp add: local_step_def)

lemma local_ticks [simp]: "local_step a w (w\<lparr>ticks := n\<rparr>)"
  by (simp add: local_step_def)

lemma local_addMessage [simp]: "local_step a w (addMessage ph m w)"
  by (simp add: local_step_def)

lemma keeps_modify:
  "context_ref r = a \<Longrightarrow> (\<And>c. previousState (f c) = previousState c) \<Longrightarrow> keeps a w (r, modify a f w)"
  by (simp add: keeps_def)

lemma keeps_same: "context_ref r = a \<Longrightarrow> keeps a w (r, w)"
  by (simp add: keeps_def)

lemma keeps_after_modify:
  "keeps a (modify a f w) rw \<Longrightarrow> (\<And>c. previousState (f c) = previousState c) \<Longrightarrow> keeps a w rw"
  by (auto simp: keeps_def local_step_def)

lemma keeps_generate: "a < next_addr w \<Longrightarrow> keeps a w (generateAIResponse a msg call w)"
  by (cases call) (auto simp: keeps_def generateAIResponse_def alloc_def local_step_def)

lemma plain_ref [simp]: "context_ref (plain_response r a) = a"
  by (simp add: plain_response_def)

lemma notifying_ref [simp]: "context_ref (notifying_response r a n) = a"
  by (simp add: notifying_response_def)

lemma select_plan_prev [simp]: "previousState (select_plan l c) = previousState c"
  by (simp add: select_plan_def)

lemma keeps_new: "keeps a w (handleNewConversation_sm a msg i w)"
  by (auto simp: handleNewConversation_sm_def intro!: keeps_modify split: option.splits)

lemma keeps_device: "keeps a w (handleDeviceSelection_sm a msg i w)"
  by (auto simp: handleDeviceSelection_sm_def intro!: keeps_modify keeps_same split: option.splits)

lemma keeps_mac: "keeps a w (handleMacCollection_sm a msg i w)"
  by (auto simp: handleMacCollection_sm_def Let_def intro!: keeps_modify keeps_same)

lemma keeps_content: "keeps a w (handleContentPreference_sm a msg i w)"
  by (auto simp: handleContentPreference_sm_def Let_def keeps_def local_step_def split: option.splits)

lemma keeps_pricing: "keeps a w (handlePricingRequest_sm a w)"
  by (auto simp: handlePricingRequest_sm_def intro!: keeps_modify)

lemma keeps_payment: "keeps a w (handlePaymentFlow_sm a msg i w)"
  by (auto simp: handlePaymentFlow_sm_def Let_def keeps_def local_step_def)

lemma keeps_pending: "keeps a w (handlePaymentPending_sm a msg i w)"
  by (auto simp: handlePaymentPending_sm_def intro!: keeps_same)

lemma keeps_technical: "keeps a w (handleTechnicalIssue_sm a msg w)"
  by (auto simp: handleTechnicalIssue_sm_def intro!: keeps_same)

lemma keeps_trial: "a < next_addr w \<Longrightarrow> keeps a w (handleTrialActive_sm a msg i call w)"
  unfolding handleTrialActive_sm_def
  by (auto intro!: keeps_pricing keeps_generate keeps_after_modify [OF keeps_payment])

lemma keeps_subscriber: "a < next_addr w \<Longrightarrow> keeps a w (handleActiveSubscriber_sm a msg i call w)"
  unfolding handleActiveSubscriber_sm_def
  by (auto intro!: keeps_technical keeps_generate)

lemma keeps_process_sm: "a < next_addr w \<Longrightarrow> keeps a w (processMessage_sm a msg i call w)"
  unfolding processMessage_sm_def
  by (auto intro!: keeps_pricing keeps_technical keeps_new keeps_device keeps_mac keeps_content
        keeps_trial keeps_payment keeps_pending keeps_subscriber keeps_generate
      split: option.splits ConversationState.splits)

lemma update_state_prev [simp]: "previousState (updateStateFromContext_auto c) = previousState c"
  by (simp add: updateStateFromContext_auto_def)

lemma let_inv: "Q e \<Longrightarrow> (\<And>x. Q x \<Longrightarrow> P (f x)) \<Longrightarrow> P (Let e f)"
  by simp

lemma collected_auto: "collected_only c (updateContextFromIntent_auto i msg c)"
  unfolding updateContextFromIntent_auto_def
  apply (rule let_inv [where Q = "collected_only c" and P = "collected_only c"], (simp add: collected_only_def split: option.splits)[1])+
  apply assumption
  done

lemma collected_sm: "collected_only c (updateContextFromIntent_sm i c)"
  unfolding updateContextFromIntent_sm_def
  apply (rule let_inv [where Q = "collected_only c" and P = "collected_only c"], (simp add: collected_only_def split: option.splits)[1])+
  apply assumption
  done

lemma intent_auto_prev [simp]:
  "previousState (updateContextFromIntent_auto i msg c) = previousState c"
  "state (updateContextFromIntent_auto i msg c) = state c"
  using collected_auto [of c i msg] by (simp_all add: collected_only_def)

lemma intent_sm_prev [simp]:
  "previousState (updateContextFromIntent_sm i c) = previousState c"
  "state (updateContextFromIntent_sm i c) = state c"
  using collected_sm [of c i] by (simp_all add: collected_only_def)

lemma check_cases:
  "checkForAdminNotification_auto c prev i msg = (n, c') \<Longrightarrow>
   previousState c' = previousState c
   \<and> (c' = c \<or> (intent i = ''payment'' \<and> isPaymentConfirmation msg))"
  by (auto simp: checkForAdminNotification_auto_def Let_def split: if_splits)

lemma keeps_process_auto:
  assumes a: "a < next_addr w"
    and ok: "(\<exists>txt. call = Resolved txt) \<or> \<not> (intent i = ''payment'' \<and> isPaymentConfirmation msg)"
  shows "keeps a w (processMessage_auto a msg i call w)"
proof -
  let ?w1 = "modify a updateStateFromContext_auto w"
  obtain r w2 where g: "generateAIResponse a msg call ?w1 = (r, w2)"
    by (cases "generateAIResponse a msg call ?w1")
  obtain n c' where c: "checkForAdminNotification_auto (heap w2 a) (state (heap w a)) i msg = (n, c')"
    by (cases "checkForAdminNotification_auto (heap w2 a) (state (heap w a)) i msg")
  note cc = check_cases [OF c]
  have k: "keeps a ?w1 (r, w2)" using keeps_generate [of a ?w1 msg call] a g by simp
  have ref: "context_ref r = a \<or> c' = heap w2 a"
    using ok cc g by (cases call) (auto simp: generateAIResponse_def)
  have "keeps a ?w1 (r', modify a (\<lambda>_. c') w2)" if "context_ref r' = context_ref r" for r'
    using k cc ref that by (auto simp: keeps_def local_step_def)
  then have "keeps a w (r', modify a (\<lambda>_. c') w2)" if "context_ref r' = context_ref r" for r'
    using that by (intro keeps_after_modify [of a updateStateFromContext_auto w]) auto
  then show ?thesis
    by (simp add: processMessage_auto_def Let_def g c split: option.splits)
qed

lemma deliver_props:
  assumes c: "conversations w ph = Some a"
    and s: "state (heap w (context_ref r)) = state (heap w a)"
    and p: "previousState (heap w (context_ref r)) = previousState (heap w a)"
  shows "fst (deliver ph (r, w)) = r
     \<and> local_step a w (snd (deliver ph (r, w)))
     \<and> previousState (heap (snd (deliver ph (r, w))) a) = previousState (heap w a)
     \<and> state (heap (snd (deliver ph (r, w))) a) = state (heap w a)"
proof -
  let ?w2 = "addMessage ph \<lparr>msg_role = Role_assistant, msg_content = response_message r,
                timestamp = clock w (ticks w)\<rparr> (w\<lparr>ticks := Suc (ticks w)\<rparr>)"
  have g: "getOrCreateContext ph ?w2 = (a, ?w2)" using c by (simp add: getOrCreateContext_old)
  show ?thesis
    using s p
    by (simp add: deliver_def Let_def updateContext_result [OF g] local_step_def
        merged_record_def object_assign_def)
qed

lemma escalate_props:
  assumes c: "conversations w ph = Some a"
  shows "local_step a w (snd (escalate ph a msg i w))
     \<and> previousState (heap (snd (escalate ph a msg i w)) a) = previousState (heap w a)
     \<and> state (heap (snd (escalate ph a msg i w)) a) = Some Needs_human
     \<and> needsHuman (heap (snd (escalate ph a msg i w)) a) = Some True
     \<and> adminNotification (fst (escalate ph a msg i w))
         = Some \<lparr>ntype = Escalation, ntext = escalation_text ph i msg\<rparr>
     \<and> context_ref (fst (escalate ph a msg i w)) = a"
proof -
  let ?w2 = "modify a (\<lambda>c. c\<lparr>state := Some Needs_human\<rparr>) (modify a (\<lambda>c. c\<lparr>needsHuman := Some True\<rparr>) w)"
  have c2: "conversations ?w2 ph = Some a" using c by simp
  show ?thesis
    by (simp add: escalate_def Let_def updateContext_alias [OF c2] local_step_def)
qed

lemma getOrCreateContext_inv:
  assumes "wf_world w" "prev_absent w" "getOrCreateContext ph w = (a, w1)"
  shows "wf_world w1 \<and> prev_absent w1 \<and> conversations w1 ph = Some a \<and> a < next_addr w1"
proof (cases "conversations w ph")
  case None
  with assms(3) have a: "a = next_addr w" and w1: "w1 = w\<lparr>ticks := Suc (Suc (ticks w)),
        heap := (heap w)(next_addr w :=
                  fresh_context ph (clock w (ticks w)) (clock w (Suc (ticks w)))),
        next_addr := Suc (next_addr w),
        conversations := (conversations w)(ph \<mapsto> next_addr w)\<rparr>"
    by (auto simp: getOrCreateContext_new)
  have lt: "\<And>q x. conversations w q = Some x \<Longrightarrow> x < next_addr w"
    using assms(1) by (auto simp: wf_world_def)
  have wf: "wf_world w1"
    using assms(1) lt unfolding wf_world_def w1 by (auto simp: less_Suc_eq split: if_splits)
  have pa: "prev_absent w1"
    using assms(2) lt unfolding prev_absent_def w1
    by (auto simp: fresh_context_def empty_object_def split: if_splits)
  show ?thesis using wf pa by (simp add: a w1)
next
  case (Some a0)
  with assms show ?thesis by (auto simp: getOrCreateContext_old wf_world_def)
qed

lemma local_inv:
  assumes "wf_world w" "prev_absent w" "conversations w ph = Some a"
    and "local_step a w w'" "previousState (heap w' a) = None"
  shows "wf_world w' \<and> prev_absent w'"
proof -
  have lt: "\<And>q x. conversations w q = Some x \<Longrightarrow> x < next_addr w"
    using assms(1) by (auto simp: wf_world_def)
  have c: "conversations w' = conversations w" and n: "next_addr w \<le> next_addr w'"
    and h: "\<And>x. x < next_addr w \<Longrightarrow> x \<noteq> a \<Longrightarrow> heap w' x = heap w x"
    using assms(4) by (auto simp: local_step_def)
  have "wf_world w'" using assms(1) n unfolding wf_world_def c by (meson less_le_trans)
  moreover have "prev_absent w'"
    unfolding prev_absent_def c
  proof (intro allI impI)
    fix q x assume q: "conversations w q = Some x"
    show "previousState (heap w' x) = None"
    proof (cases "x = a")
      case True
      then show ?thesis using assms(5) by simp
    next
      case False
      then show ?thesis using h [OF lt [OF q]] assms(2) q by (simp add: prev_absent_def)
    qed
  qed
  ultimately show ?thesis by simp
qed

lemma receive_sm_props:
  assumes "receive_sm ph msg w = (a, w')"
  obtains w1 where "getOrCreateContext ph w = (a, w1)" "local_step a w1 w'"
    "previousState (heap w' a) = previousState (heap w1 a)" "state (heap w' a) = state (heap w1 a)"
proof -
  obtain a0 w1 where g: "getOrCreateContext ph w = (a0, w1)" by (cases "getOrCreateContext ph w")
  from assms have "a = a0 \<and> local_step a w1 w' \<and> previousState (heap w' a) = previousState (heap w1 a)
      \<and> state (heap w' a) = state (heap w1 a)"
    by (auto simp: receive_sm_def g Let_def local_step_def)
  with g that show thesis by blast
qed

lemma receive_auto_props:
  assumes "receive_auto ph msg tn w = (a, w')"
  obtains w1 where "getOrCreateContext ph w = (a, w1)" "local_step a w1 w'"
    "previousState (heap w' a) = previousState (heap w1 a)" "state (heap w' a) = state (heap w1 a)"
proof -
  obtain a0 w1 where g: "getOrCreateContext ph w = (a0, w1)" by (cases "getOrCreateContext ph w")
  from assms have "a = a0 \<and> local_step a w1 w' \<and> previousState (heap w' a) = previousState (heap w1 a)
      \<and> state (heap w' a) = state (heap w1 a)"
    by (auto simp: receive_auto_def g Let_def local_step_def)
  with g that show thesis by blast
qed

text \<open>What the part of a turn after the opening does, given a handler that keeps.\<close>

lemma turn_rest:
  assumes c: "conversations w ph = Some a" and lt: "a < next_addr w"
    and k: "keeps a w rw"
  shows "local_step a w (snd (deliver ph rw))
     \<and> previousState (heap (snd (deliver ph rw)) a) = previousState (heap w a)
     \<and> state (heap (snd (deliver ph rw)) a) = state (heap (snd rw) a)
     \<and> fst (deliver ph rw) = fst rw"
proof -
  obtain r w3 where rw: "rw = (r, w3)" by (cases rw)
  from k have l: "local_step a w w3" and p: "previousState (heap w3 a) = previousState (heap w a)"
    and s: "state (heap w3 (context_ref r)) = state (heap w3 a)"
    and pr: "previousState (heap w3 (context_ref r)) = previousState (heap w3 a)"
    by (simp_all add: keeps_def rw)
  have c3: "conversations w3 ph = Some a" using l c by (simp add: local_step_def)
  note d = deliver_props [OF c3 s pr]
  have "local_step a w (snd (deliver ph (r, w3)))"
    using l d lt by (auto simp: local_step_def)
  then show ?thesis using d p by (simp add: rw)
qed

lemma handle_sm_inv:
  assumes wf: "wf_world w" and pa: "prev_absent w"
    and h: "handleIncomingMessage_sm True jp ph msg tn w = Inr (r, w')"
  shows "wf_world w' \<and> prev_absent w'"
proof -
  obtain a w1 where rc: "receive_sm ph msg w = (a, w1)" by (cases "receive_sm ph msg w")
  from receive_sm_props [OF rc] obtain w0 where g: "getOrCreateContext ph w = (a, w0)"
    and l0: "local_step a w0 w1" and p0: "previousState (heap w1 a) = previousState (heap w0 a)"
    by blast
  note i0 = getOrCreateContext_inv [OF wf pa g]
  then have pn: "previousState (heap w0 a) = None" by (auto simp: prev_absent_def)
  from local_inv [of w0 ph a w1] i0 l0 p0 pn have i1: "wf_world w1" "prev_absent w1" by auto
  have c1: "conversations w1 ph = Some a" using l0 i0 by (simp add: local_step_def)
  have lt1: "a < next_addr w1" using i1 c1 by (auto simp: wf_world_def)
  obtain i where di: "detectIntent True jp (intent_call tn) msg = Inr i"
    using h rc by (auto simp: handleIncomingMessage_sm_def split: sum.splits)
  let ?w2 = "modify a (updateContextFromIntent_sm i) w1"
  have c2: "conversations ?w2 ph = Some a" and lt2: "a < next_addr ?w2" using c1 lt1 by simp_all
  have p2: "previousState (heap ?w2 a) = None" using p0 pn by simp
  have l2: "local_step a w1 ?w2" by simp
  have "local_step a ?w2 w' \<and> previousState (heap w' a) = None"
  proof (cases "shouldEscalateToHuman (heap ?w2 a) msg (intent i)")
    case True
    then have "w' = snd (escalate ph a msg i ?w2)"
      using h rc di by (simp add: handleIncomingMessage_sm_def Let_def)
    then show ?thesis using escalate_props [OF c2, of msg i] p2 by simp
  next
    case False
    then have "w' = snd (deliver ph (processMessage_sm a msg i (reply_call tn) ?w2))"
      using h rc di by (simp add: handleIncomingMessage_sm_def Let_def)
    then show ?thesis
      using turn_rest [OF c2 lt2 keeps_process_sm [OF lt2, of msg i "reply_call tn"]] p2 by simp
  qed
  then have "local_step a w1 w'" "previousState (heap w' a) = None"
    using local_trans [OF l2] by auto
  then show ?thesis using local_inv [OF i1 c1] by simp
qed

lemma handle_auto_inv:
  assumes wf: "wf_world w" and pa: "prev_absent w"
    and h: "handleIncomingMessage_auto True jp ph msg tn w = Inr (r, w')"
    and di: "detectIntent True jp (intent_call tn) msg = Inr i"
    and ok: "\<not> payment_after_failure i msg tn"
  shows "wf_world w' \<and> prev_absent w'"
proof -
  obtain a w1 where rc: "receive_auto ph msg tn w = (a, w1)" by (cases "receive_auto ph msg tn w")
  from receive_auto_props [OF rc] obtain w0 where g: "getOrCreateContext ph w = (a, w0)"
    and l0: "local_step a w0 w1" and p0: "previousState (heap w1 a) = previousState (heap w0 a)"
    by blast
  note i0 = getOrCreateContext_inv [OF wf pa g]
  then have pn: "previousState (heap w0 a) = None" by (auto simp: prev_absent_def)
  from local_inv [of w0 ph a w1] i0 l0 p0 pn have i1: "wf_world w1" "prev_absent w1" by auto
  have c1: "conversations w1 ph = Some a" using l0 i0 by (simp add: local_step_def)
  have lt1: "a < next_addr w1" using i1 c1 by (auto simp: wf_world_def)
  let ?w2 = "modify a (updateContextFromIntent_auto i msg) w1"
  have c2: "conversations ?w2 ph = Some a" and lt2: "a < next_addr ?w2" using c1 lt1 by simp_all
  have p2: "previousState (heap ?w2 a) = None" using p0 pn by simp
  have l2: "local_step a w1 ?w2" by simp
  have ok': "(\<exists>txt. reply_call tn = Resolved txt) \<or> \<not> (intent i = ''payment'' \<and> isPaymentConfirmation msg)"
    using ok by (cases "reply_call tn") (auto simp: payment_after_failure_def)
  have "local_step a ?w2 w' \<and> previousState (heap w' a) = None"
  proof (cases "shouldEscalateToHuman (heap ?w2 a) msg (intent i)")
    case True
    then have "w' = snd (escalate ph a msg i ?w2)"
      using h rc di by (simp add: handleIncomingMessage_auto_def Let_def)
    then show ?thesis using escalate_props [OF c2, of msg i] p2 by simp
  next
    case False
    then have "w' = snd (deliver ph (processMessage_auto a msg i (reply_call tn) ?w2))"
      using h rc di by (simp add: handleIncomingMessage_auto_def Let_def)
    then show ?thesis
      using turn_rest [OF c2 lt2 keeps_process_auto [OF lt2 ok']] p2 by simp
  qed
  then have "local_step a w1 w'" "previousState (heap w' a) = None"
    using local_trans [OF l2] by auto
  then show ?thesis using local_inv [OF i1 c1] by simp
qed

lemma activateTrial_step:
  assumes g: "getOrCreateContext ph w = (a, w1)"
  shows "local_step a w1 (snd (activateTrial ph creds w))
     \<and> previousState (heap (snd (activateTrial ph creds w)) a) = previousState (heap w1 a)
     \<and> state (heap (snd (activateTrial ph creds w)) a) = Some Trial_active"
proof -
  have c: "conversations w1 ph = Some a" using g by (rule getOrCreateContext_stored)
  show ?thesis
    by (simp add: activateTrial_def g Let_def updateContext_alias c local_step_def)
qed

lemma activateSubscription_step:
  assumes g: "getOrCreateContext ph w = (a, w1)"
  shows "local_step a w1 (snd (activateSubscription ph p creds w))
     \<and> previousState (heap (snd (activateSubscription ph p creds w)) a) = previousState (heap w1 a)
     \<and> state (heap (snd (activateSubscription ph p creds w)) a) = Some Active_subscriber"
proof -
  have c: "conversations w1 ph = Some a" using g by (rule getOrCreateContext_stored)
  show ?thesis
    by (simp add: activateSubscription_def g Let_def updateContext_alias c local_step_def)
qed

lemma initial_inv: "wf_world (initial_world clk) \<and> prev_absent (initial_world clk)"
  by (simp add: wf_world_def prev_absent_def initial_world_def)

lemma reachable_inv: "reachable jp w \<Longrightarrow> wf_world w \<and> prev_absent w"
proof (induction rule: reachable.induct)
  case (start clk)
  show ?case by (rule initial_inv)
next
  case (message_sm w ph msg tn r w')
  then show ?case using handle_sm_inv by blast
next
  case (message_auto w ph msg tn r w' i)
  then show ?case using handle_auto_inv by blast
next
  case (trial w ph creds)
  obtain a w1 where g: "getOrCreateContext ph w = (a, w1)" by (cases "getOrCreateContext ph w")
  from trial.IH getOrCreateContext_inv [OF _ _ g]
  have i: "wf_world w1" "prev_absent w1" "conversations w1 ph = Some a" by auto
  then have "previousState (heap w1 a) = None" by (auto simp: prev_absent_def)
  then show ?case using local_inv [OF i] activateTrial_step [OF g, of creds] by simp
next
  case (subscription w ph p creds)
  obtain a w1 where g: "getOrCreateContext ph w = (a, w1)" by (cases "getOrCreateContext ph w")
  from subscription.IH getOrCreateContext_inv [OF _ _ g]
  have i: "wf_world w1" "prev_absent w1" "conversations w1 ph = Some a" by auto
  then have "previousState (heap w1 a) = None" by (auto simp: prev_absent_def)
  then show ?case using local_inv [OF i] activateSubscription_step [OF g, of p creds] by simp
qed

section \<open>Properties: the example inputs\<close>

lemma parse_ex: "example_parse (CHR ''{'' # l @ ''}'') = Some (labelled l)"
  by (simp add: example_parse_def)

lemma json_match_ex:
  "CHR ''{'' \<notin> set l \<Longrightarrow> CHR ''}'' \<notin> set l \<Longrightarrow>
   json_match (CHR ''{'' # l @ ''}'') = Some (CHR ''{'' # l @ ''}'')"
  by (simp add: json_match_def dropWhile_append3 split: list.splits)

lemma detect_ex:
  "CHR ''{'' \<notin> set l \<Longrightarrow> CHR ''}'' \<notin> set l \<Longrightarrow>
   detectIntent True example_parse (intent_call (example_turn l reply)) msg = Inr (labelled l)"
  using json_match_ex [of l] parse_ex [of l]
  by (simp add: detectIntent_def detect_try_def example_turn_def)

lemma labelled_fields [simp]:
  "intent (labelled l) = l" "sentiment_of (labelled l) = Neutral"
  "entities (labelled l) = no_entities"
  by (simp_all add: labelled_def default_intent_def)

lemma no_entities_fields [simp]:
  "entity_device no_entities = None" "plan_interest no_entities = None"
  "content_preference no_entities = None" "mac_address no_entities = None"
  "device_key no_entities = None" "payment_method no_entities = None"
  by (simp_all add: no_entities_def)

lemma example_turn_fields [simp]:
  "reply_call (example_turn l reply) = reply" "detected_language (example_turn l reply) = En"
  by (simp_all add: example_turn_def)

lemma keyword_facts:
  "some_includes escalationKeywords (toLowerCase ''I want a refund'') = True"
  "some_includes escalationKeywords (toLowerCase ''I want a refund, this is a scam'') = True"
  "some_includes escalationKeywords (toLowerCase ''how much is it'') = False"
  "some_includes escalationKeywords (toLowerCase ''thanks'') = False"
  "some_includes escalationKeywords (toLowerCase ''worldwide please, adult too'') = False"
  "isPaymentConfirmation ''thanks'' = False"
  "extractContentPreference ''worldwide please, adult too'' = Some Worldwide"
  "mentions_adult ''worldwide please, adult too'' = True"
  by code_simp+

lemma paid_facts:
  "mentions_adult ''I paid'' = False"
  "extractMacAddress ''I paid'' = None"
  "regex_search match_device_key ''I paid'' = None"
  "extractContentPreference ''I paid'' = None"
  "extractDeviceType ''I paid'' = None"
  "some_includes escalationKeywords (toLowerCase ''I paid'') = False"
  "isPaymentConfirmation ''I paid'' = True"
  by code_simp+

lemma upd_paid:
  "updateContextFromIntent_auto (labelled ''payment'') ''I paid'' c = c\<lparr>sentiment := Some Neutral\<rparr>"
  by (simp add: updateContextFromIntent_auto_def paid_facts isValid_def Let_def
      del: regex_search.simps)

lemma ghosted_world_fields:
  "conversations ghosted_world example_phone = Some 0"
  "state (heap ghosted_world 0) = Some Trial_expired"
  "followUpsSent (heap ghosted_world 0) = Some 3"
  "sentiment (heap ghosted_world 0) = Some Neutral"
  by (simp_all add: ghosted_world_def fresh_context_def)


section \<open>Properties: the previous-state record\<close>

text \<open>
  Claim C10, as stated, fails: on an empty store, one message that confirms a payment,
  in a turn of the auto-advancing service whose reply call throws, leaves the stored
  context with \<open>previousState\<close> \<open>payment_pending\<close>.
\<close>

theorem previousState_assigned_counterexample:
  "map_option previousState
     (stored example_phone
        (snd (projr (handleIncomingMessage_auto True example_parse example_phone ''I paid''
                       (example_turn ''payment'' (Rejected ''timeout''))
                       (initial_world example_clock)))))
   = Some (Some Payment_pending)"
proof -
  have di: "detectIntent True example_parse
              (intent_call (example_turn ''payment'' (Rejected ''timeout''))) ''I paid''
            = Inr (labelled ''payment'')"
    by (rule detect_ex) simp_all
  show ?thesis
    by (simp add: handleIncomingMessage_auto_def di upd_paid paid_facts Let_def
        receive_auto_def getOrCreateContext_def alloc_def initial_world_def
        shouldEscalateToHuman_def processMessage_auto_def updateStateFromContext_auto_def
        admin_owned_def generateAIResponse_def checkForAdminNotification_auto_def
        deliver_def updateContext_def stored_def empty_object_def
        object_assign_def truthy_str_def)
qed

text \<open>
  Claim C10, amended. In every world reached from an empty store by the admin
  activations and by inbound messages (of either copy of the service, leaving aside the
  turns of the auto-advancing copy in which the reply call fails while the
  payment-confirmation branch fires), no stored context has a \<open>previousState\<close>: every
  such operation writes to the stored object itself and hands \<^verbatim>\<open>updateContext\<close> that
  object, or a copy with the same state.
\<close>

theorem previousState_stays_absent:
  "reachable json_parse w \<Longrightarrow> stored ph w = Some c \<Longrightarrow> previousState c = None"
  using reachable_inv [of json_parse w] by (auto simp: stored_def prev_absent_def)

theorem previousState_stays_absent_witness:
  "reachable example_parse
     (snd (activateTrial example_phone example_credentials (initial_world example_clock)))
   \<and> (\<exists>c. stored example_phone
              (snd (activateTrial example_phone example_credentials (initial_world example_clock)))
            = Some c
          \<and> state c = Some Trial_active \<and> previousState c = None)"
proof -
  let ?w = "initial_world example_clock"
  let ?w' = "snd (activateTrial example_phone example_credentials ?w)"
  have r: "reachable example_parse ?w'" by (rule reachable.trial [OF reachable.start])
  obtain a w0 where g: "getOrCreateContext example_phone ?w = (a, w0)"
    by (cases "getOrCreateContext example_phone ?w")
  note st = activateTrial_step [OF g, of example_credentials]
  have c: "conversations ?w' example_phone = Some a"
    using st getOrCreateContext_stored [OF g] by (simp add: local_step_def)
  then have s: "stored example_phone ?w' = Some (heap ?w' a)" by (simp add: stored_def)
  from previousState_stays_absent [OF r s] have "previousState (heap ?w' a) = None" .
  then show ?thesis using r s st by simp
qed

section \<open>Properties: the course of a turn\<close>

lemma sentiment_sm [simp]: "sentiment (updateContextFromIntent_sm i c) = Some (sentiment_of i)"
  unfolding updateContextFromIntent_sm_def
  apply (rule let_inv [where Q = "\<lambda>x. sentiment x = Some (sentiment_of i)"
                         and P = "\<lambda>x. sentiment x = Some (sentiment_of i)"],
         (simp split: option.splits)[1])+
  apply assumption
  done

lemma sentiment_auto [simp]: "sentiment (updateContextFromIntent_auto i msg c) = Some (sentiment_of i)"
  unfolding updateContextFromIntent_auto_def
  apply (rule let_inv [where Q = "\<lambda>x. sentiment x = Some (sentiment_of i)"
                         and P = "\<lambda>x. sentiment x = Some (sentiment_of i)"],
         (simp split: option.splits)[1])+
  apply assumption
  done

lemma shouldEscalate_cases:
  "shouldEscalateToHuman c msg l
     = (l = ''human_request'' \<or> sentiment c = Some Frustrated
        \<or> some_includes escalationKeywords (toLowerCase msg))"
  by (simp add: shouldEscalateToHuman_def)

lemma shouldEscalate_triggers:
  "sentiment c = Some (sentiment_of i) \<Longrightarrow>
   shouldEscalateToHuman c msg (intent i) = triggers_escalation i msg"
  by (simp add: shouldEscalate_cases triggers_escalation_def)

lemma receive_sm_heap:
  assumes g: "getOrCreateContext ph w = (a, w0)"
  shows "fst (receive_sm ph msg w) = a
     \<and> conversations (snd (receive_sm ph msg w)) = conversations w0
     \<and> next_addr (snd (receive_sm ph msg w)) = next_addr w0
     \<and> heap (snd (receive_sm ph msg w))
         = (heap w0)(a := (heap w0 a)\<lparr>lastMessageAt := Some (clock w0 (ticks w0))\<rparr>)"
  by (simp add: receive_sm_def g Let_def)

lemma receive_auto_heap:
  assumes g: "getOrCreateContext ph w = (a, w0)"
  shows "fst (receive_auto ph msg tn w) = a
     \<and> conversations (snd (receive_auto ph msg tn w)) = conversations w0
     \<and> next_addr (snd (receive_auto ph msg tn w)) = next_addr w0
     \<and> state (heap (snd (receive_auto ph msg tn w)) a) = state (heap w0 a)
     \<and> previousState (heap (snd (receive_auto ph msg tn w)) a) = previousState (heap w0 a)"
  by (simp add: receive_auto_def g Let_def)

lemma handle_sm_unfold:
  assumes g: "getOrCreateContext ph w = (a, w0)"
    and di: "detectIntent True jp (intent_call tn) msg = Inr i"
    and w2: "w2 = modify a (updateContextFromIntent_sm i) (snd (receive_sm ph msg w))"
  shows "handleIncomingMessage_sm True jp ph msg tn w
               = Inr (if triggers_escalation i msg then escalate ph a msg i w2
                      else deliver ph (processMessage_sm a msg i (reply_call tn) w2))"
  using receive_sm_heap [OF g, of msg]
  by (simp add: handleIncomingMessage_sm_def di Let_def shouldEscalate_triggers split_def w2)

lemma handle_auto_unfold:
  assumes g: "getOrCreateContext ph w = (a, w0)"
    and di: "detectIntent True jp (intent_call tn) msg = Inr i"
    and w2: "w2 = modify a (updateContextFromIntent_auto i msg) (snd (receive_auto ph msg tn w))"
  shows "handleIncomingMessage_auto True jp ph msg tn w
               = Inr (if triggers_escalation i msg then escalate ph a msg i w2
                      else deliver ph (processMessage_auto a msg i (reply_call tn) w2))"
  using receive_auto_heap [OF g, of msg tn]
  by (simp add: handleIncomingMessage_auto_def di Let_def shouldEscalate_triggers split_def w2)

text \<open>Escalation, for either copy.\<close>

lemma handle_sm_escalates:
  assumes g: "getOrCreateContext ph w = (a, w0)"
    and di: "detectIntent True jp (intent_call tn) msg = Inr i"
    and t: "triggers_escalation i msg"
  shows "\<exists>r w'. handleIncomingMessage_sm True jp ph msg tn w = Inr (r, w')
            \<and> conversations w' ph = Some a \<and> state (heap w' a) = Some Needs_human
            \<and> map_option ntype (adminNotification r) = Some Escalation"
proof -
  define w2 where "w2 = modify a (updateContextFromIntent_sm i) (snd (receive_sm ph msg w))"
  have h: "handleIncomingMessage_sm True jp ph msg tn w = Inr (escalate ph a msg i w2)"
    using handle_sm_unfold [OF g di w2_def] t by simp
  have c2: "conversations w2 = conversations w0"
    using receive_sm_heap [OF g, of msg] by (simp add: w2_def)
  have c2': "conversations w2 ph = Some a" using getOrCreateContext_stored [OF g] c2 by simp
  note e = escalate_props [OF c2', of msg i]
  have "conversations (snd (escalate ph a msg i w2)) ph = Some a"
    using e c2' by (simp add: local_step_def)
  then show ?thesis using h e by (cases "escalate ph a msg i w2") auto
qed

lemma handle_auto_escalates:
  assumes g: "getOrCreateContext ph w = (a, w0)"
    and di: "detectIntent True jp (intent_call tn) msg = Inr i"
    and t: "triggers_escalation i msg"
  shows "\<exists>r w'. handleIncomingMessage_auto True jp ph msg tn w = Inr (r, w')
            \<and> conversations w' ph = Some a \<and> state (heap w' a) = Some Needs_human
            \<and> map_option ntype (adminNotification r) = Some Escalation"
proof -
  define w2 where "w2 = modify a (updateContextFromIntent_auto i msg) (snd (receive_auto ph msg tn w))"
  have h: "handleIncomingMessage_auto True jp ph msg tn w = Inr (escalate ph a msg i w2)"
    using handle_auto_unfold [OF g di w2_def] t by simp
  have c2: "conversations w2 = conversations w0"
    using receive_auto_heap [OF g, of msg tn] by (simp add: w2_def)
  have c2': "conversations w2 ph = Some a" using getOrCreateContext_stored [OF g] c2 by simp
  note e = escalate_props [OF c2', of msg i]
  have "conversations (snd (escalate ph a msg i w2)) ph = Some a"
    using e c2' by (simp add: local_step_def)
  then show ?thesis using h e by (cases "escalate ph a msg i w2") auto
qed

section \<open>Properties: escalation\<close>

lemma handle_total:
  "\<exists>i. detectIntent True jp call msg = Inr i"
  by (cases call) (auto simp: detectIntent_def detect_try_def split: option.splits sum.splits)

lemma process_sm_needs_human:
  assumes "state (heap w a) = Some Needs_human"
  shows "state (heap (snd (processMessage_sm a msg i call w)) a)
           = (if intent i = ''pricing'' then Some Awaiting_payment else Some Needs_human)"
  using assms
  by (cases call)
     (auto simp: processMessage_sm_def handlePricingRequest_sm_def handleTechnicalIssue_sm_def
        generateAIResponse_def alloc_def)

lemma process_auto_needs_human:
  assumes "state (heap w a) = Some Needs_human"
    and "\<not> (intent i = ''payment'' \<and> isPaymentConfirmation msg)"
  shows "state (heap (snd (processMessage_auto a msg i call w)) a) = Some Needs_human"
  using assms
  by (cases call)
     (auto simp: processMessage_auto_def updateStateFromContext_auto_def admin_owned_def
        generateAIResponse_def alloc_def checkForAdminNotification_auto_def Let_def
        split: option.splits)

lemma sm_from_needs_human:
  assumes c: "conversations w ph = Some a" and lt: "a < next_addr w"
    and s: "state (heap w a) = Some Needs_human"
    and di: "detectIntent True jp (intent_call tn) msg = Inr i"
  shows "\<exists>r w'. handleIncomingMessage_sm True jp ph msg tn w = Inr (r, w')
            \<and> conversations w' ph = Some a
            \<and> state (heap w' a)
                = (if intent i = ''pricing'' \<and> \<not> triggers_escalation i msg
                   then Some Awaiting_payment else Some Needs_human)"
proof (cases "triggers_escalation i msg")
  case True
  then show ?thesis using handle_sm_escalates [OF getOrCreateContext_old [OF c] di] by auto
next
  case False
  have g: "getOrCreateContext ph w = (a, w)" using c by (rule getOrCreateContext_old)
  define w2 where "w2 = modify a (updateContextFromIntent_sm i) (snd (receive_sm ph msg w))"
  define rw where "rw = processMessage_sm a msg i (reply_call tn) w2"
  have h: "handleIncomingMessage_sm True jp ph msg tn w = Inr (deliver ph rw)"
    using handle_sm_unfold [OF g di w2_def] False by (simp add: rw_def)
  have c2: "conversations w2 ph = Some a" and lt2: "a < next_addr w2"
    and s2: "state (heap w2 a) = Some Needs_human"
    using receive_sm_heap [OF g, of msg] c lt s by (simp_all add: w2_def)
  have k: "keeps a w2 rw" unfolding rw_def by (rule keeps_process_sm [OF lt2])
  note tr = turn_rest [OF c2 lt2 k]
  have "conversations (snd (deliver ph rw)) ph = Some a"
    using tr c2 by (simp add: local_step_def)
  moreover have "state (heap (snd (deliver ph rw)) a)
      = (if intent i = ''pricing'' then Some Awaiting_payment else Some Needs_human)"
    using tr process_sm_needs_human [OF s2, of msg i "reply_call tn"] by (simp add: rw_def)
  ultimately show ?thesis using h False by (cases "deliver ph rw") auto
qed

lemma auto_from_needs_human:
  assumes c: "conversations w ph = Some a" and lt: "a < next_addr w"
    and s: "state (heap w a) = Some Needs_human"
    and di: "detectIntent True jp (intent_call tn) msg = Inr i"
    and np: "triggers_escalation i msg \<or> \<not> (intent i = ''payment'' \<and> isPaymentConfirmation msg)"
  shows "\<exists>r w'. handleIncomingMessage_auto True jp ph msg tn w = Inr (r, w')
            \<and> conversations w' ph = Some a \<and> state (heap w' a) = Some Needs_human"
proof (cases "triggers_escalation i msg")
  case True
  then show ?thesis using handle_auto_escalates [OF getOrCreateContext_old [OF c] di] by auto
next
  case False
  then have np': "\<not> (intent i = ''payment'' \<and> isPaymentConfirmation msg)" using np by simp
  have g: "getOrCreateContext ph w = (a, w)" using c by (rule getOrCreateContext_old)
  define w2 where "w2 = modify a (updateContextFromIntent_auto i msg) (snd (receive_auto ph msg tn w))"
  define rw where "rw = processMessage_auto a msg i (reply_call tn) w2"
  have h: "handleIncomingMessage_auto True jp ph msg tn w = Inr (deliver ph rw)"
    using handle_auto_unfold [OF g di w2_def] False by (simp add: rw_def)
  have c2: "conversations w2 ph = Some a" and lt2: "a < next_addr w2"
    and s2: "state (heap w2 a) = Some Needs_human"
    using receive_auto_heap [OF g, of msg tn] c lt s by (simp_all add: w2_def)
  have k: "keeps a w2 rw" unfolding rw_def using np' by (intro keeps_process_auto [OF lt2]) simp
  note tr = turn_rest [OF c2 lt2 k]
  have "conversations (snd (deliver ph rw)) ph = Some a"
    using tr c2 by (simp add: local_step_def)
  moreover have "state (heap (snd (deliver ph rw)) a) = Some Needs_human"
    using tr process_auto_needs_human [OF s2 np', of "reply_call tn"] by (simp add: rw_def)
  ultimately show ?thesis using h by (cases "deliver ph rw") auto
qed

text \<open>The payment-confirmation branch of the auto-advancing service does move an
  escalated context: a message that confirms a payment, classified \<open>payment\<close> and not
  escalated, answered by the model, leaves it in \<open>payment_pending\<close>.\<close>

lemma process_auto_payment:
  assumes "state (heap w a) = Some Needs_human"
    and "intent i = ''payment''" and "isPaymentConfirmation msg"
  shows "state (heap (snd (processMessage_auto a msg i (Resolved txt) w)) a) = Some Payment_pending"
  using assms
  by (simp add: processMessage_auto_def updateStateFromContext_auto_def admin_owned_def
      generateAIResponse_def checkForAdminNotification_auto_def Let_def)

lemma auto_payment_leaves_needs_human:
  assumes c: "conversations w ph = Some a" and lt: "a < next_addr w"
    and s: "state (heap w a) = Some Needs_human"
    and di: "detectIntent True jp (intent_call tn) msg = Inr i"
    and nt: "\<not> triggers_escalation i msg"
    and pay: "intent i = ''payment''" "isPaymentConfirmation msg"
    and ok: "reply_call tn = Resolved txt"
  shows "\<exists>r w'. handleIncomingMessage_auto True jp ph msg tn w = Inr (r, w')
            \<and> conversations w' ph = Some a \<and> state (heap w' a) = Some Payment_pending"
proof -
  have g: "getOrCreateContext ph w = (a, w)" using c by (rule getOrCreateContext_old)
  define w2 where "w2 = modify a (updateContextFromIntent_auto i msg) (snd (receive_auto ph msg tn w))"
  define rw where "rw = processMessage_auto a msg i (reply_call tn) w2"
  have h: "handleIncomingMessage_auto True jp ph msg tn w = Inr (deliver ph rw)"
    using handle_auto_unfold [OF g di w2_def] nt by (simp add: rw_def)
  have c2: "conversations w2 ph = Some a" and lt2: "a < next_addr w2"
    and s2: "state (heap w2 a) = Some Needs_human"
    using receive_auto_heap [OF g, of msg tn] c lt s by (simp_all add: w2_def)
  have k: "keeps a w2 rw" unfolding rw_def using ok by (intro keeps_process_auto [OF lt2]) simp
  note tr = turn_rest [OF c2 lt2 k]
  have "conversations (snd (deliver ph rw)) ph = Some a"
    using tr c2 by (simp add: local_step_def)
  moreover have "state (heap (snd (deliver ph rw)) a) = Some Payment_pending"
    using tr process_auto_payment [OF s2 pay, of "txt"] by (simp add: rw_def ok)
  ultimately show ?thesis using h by (cases "deliver ph rw") auto
qed

lemma activations_set_state:
  assumes c: "conversations w ph = Some a"
  shows "state (heap (snd (activateTrial ph creds w)) a) = Some Trial_active
     \<and> state (heap (snd (activateSubscription ph p creds w)) a) = Some Active_subscriber
     \<and> conversations (snd (activateTrial ph creds w)) ph = Some a
     \<and> conversations (snd (activateSubscription ph p creds w)) ph = Some a"
proof -
  have g: "getOrCreateContext ph w = (a, w)" using c by (rule getOrCreateContext_old)
  show ?thesis
    using activateTrial_step [OF g, of creds] activateSubscription_step [OF g, of p creds] c
    by (simp add: local_step_def)
qed

text \<open>
  Claim C2, as stated, fails: for a customer in \<open>trial_expired\<close> with three follow-ups
  sent, a message with the keywords \<open>refund\<close> and \<open>scam\<close>, classified \<open>other\<close> with
  neutral sentiment, is escalated.
\<close>

theorem ghost_keyword_counterexample:
  "state (heap ghosted_world 0) = Some Trial_expired
   \<and> followUpsSent (heap ghosted_world 0) = Some 3
   \<and> intent (labelled ''other'') \<noteq> ''human_request''
   \<and> sentiment_of (labelled ''other'') \<noteq> Frustrated
   \<and> shouldEscalateToHuman (heap ghosted_world 0) ''I want a refund, this is a scam'' ''other''
   \<and> map_option state
        (stored example_phone
           (snd (projr (handleIncomingMessage_auto True example_parse example_phone
                          ''I want a refund, this is a scam''
                          (example_turn ''other'' (Resolved ''ok'')) ghosted_world))))
       = Some (Some Needs_human)
   \<and> map_option ntype
        (adminNotification
           (fst (projr (handleIncomingMessage_auto True example_parse example_phone
                          ''I want a refund, this is a scam''
                          (example_turn ''other'' (Resolved ''ok'')) ghosted_world))))
       = Some Escalation"
proof -
  let ?tn = "example_turn ''other'' (Resolved ''ok'')"
  let ?msg = "''I want a refund, this is a scam''"
  have di: "detectIntent True example_parse (intent_call ?tn) ?msg = Inr (labelled ''other'')"
    by (rule detect_ex) simp_all
  have t: "triggers_escalation (labelled ''other'') ?msg"
    by (simp add: triggers_escalation_def keyword_facts)
  have g: "getOrCreateContext example_phone ghosted_world = (0, ghosted_world)"
    by (rule getOrCreateContext_old) (rule ghosted_world_fields)
  from handle_auto_escalates [OF g di t] obtain r w' where
    "handleIncomingMessage_auto True example_parse example_phone ?msg ?tn ghosted_world = Inr (r, w')"
    "conversations w' example_phone = Some 0" "state (heap w' 0) = Some Needs_human"
    "map_option ntype (adminNotification r) = Some Escalation"
    by blast
  then show ?thesis
    by (simp add: stored_def ghosted_world_fields shouldEscalate_cases keyword_facts)
qed

text \<open>
  Claim C2, amended. For every stored context, also one in \<open>trial_expired\<close> with three
  or more follow-ups sent, an inbound message that carries an escalation keyword forces
  the state to \<open>needs_human\<close> and yields an \<open>escalation\<close> notification, whatever its
  classified intent and sentiment, just as the explicit request and the frustrated
  sentiment do: \<^verbatim>\<open>shouldEscalateToHuman\<close> is the disjunction of the three triggers, and
  neither the state nor the follow-up count takes part in it.
\<close>

theorem escalation_by_any_trigger:
  "shouldEscalateToHuman c msg l
     = (l = ''human_request'' \<or> sentiment c = Some Frustrated
        \<or> some_includes escalationKeywords (toLowerCase msg))
   \<and> (conversations w ph = Some a
        \<longrightarrow> detectIntent True jp (intent_call tn) msg = Inr i
        \<longrightarrow> triggers_escalation i msg
        \<longrightarrow> (\<exists>r w'. handleIncomingMessage_auto True jp ph msg tn w = Inr (r, w')
                \<and> conversations w' ph = Some a \<and> state (heap w' a) = Some Needs_human
                \<and> map_option ntype (adminNotification r) = Some Escalation)
            \<and> (\<exists>r w'. handleIncomingMessage_sm True jp ph msg tn w = Inr (r, w')
                \<and> conversations w' ph = Some a \<and> state (heap w' a) = Some Needs_human
                \<and> map_option ntype (adminNotification r) = Some Escalation))"
proof (intro conjI impI)
  show "shouldEscalateToHuman c msg l
     = (l = ''human_request'' \<or> sentiment c = Some Frustrated
        \<or> some_includes escalationKeywords (toLowerCase msg))"
    by (rule shouldEscalate_cases)
next
  assume "conversations w ph = Some a" "detectIntent True jp (intent_call tn) msg = Inr i"
    "triggers_escalation i msg"
  then show "\<exists>r w'. handleIncomingMessage_auto True jp ph msg tn w = Inr (r, w')
                \<and> conversations w' ph = Some a \<and> state (heap w' a) = Some Needs_human
                \<and> map_option ntype (adminNotification r) = Some Escalation"
    using handle_auto_escalates [OF getOrCreateContext_old] by blast
next
  assume "conversations w ph = Some a" "detectIntent True jp (intent_call tn) msg = Inr i"
    "triggers_escalation i msg"
  then show "\<exists>r w'. handleIncomingMessage_sm True jp ph msg tn w = Inr (r, w')
                \<and> conversations w' ph = Some a \<and> state (heap w' a) = Some Needs_human
                \<and> map_option ntype (adminNotification r) = Some Escalation"
    using handle_sm_escalates [OF getOrCreateContext_old] by blast
qed

theorem escalation_by_any_trigger_witness:
  "conversations ghosted_world example_phone = Some 0
   \<and> detectIntent True example_parse (intent_call (example_turn ''other'' (Resolved ''ok'')))
        ''I want a refund, this is a scam'' = Inr (labelled ''other'')
   \<and> triggers_escalation (labelled ''other'') ''I want a refund, this is a scam''
   \<and> (\<exists>r w'. handleIncomingMessage_auto True example_parse example_phone
                ''I want a refund, this is a scam'' (example_turn ''other'' (Resolved ''ok''))
                ghosted_world = Inr (r, w')
          \<and> state (heap w' 0) = Some Needs_human
          \<and> map_option ntype (adminNotification r) = Some Escalation)"
proof -
  let ?tn = "example_turn ''other'' (Resolved ''ok'')"
  let ?msg = "''I want a refund, this is a scam''"
  have di: "detectIntent True example_parse (intent_call ?tn) ?msg = Inr (labelled ''other'')"
    by (rule detect_ex) simp_all
  have t: "triggers_escalation (labelled ''other'') ?msg"
    by (simp add: triggers_escalation_def keyword_facts)
  have c: "conversations ghosted_world example_phone = Some 0" by (rule ghosted_world_fields)
  show ?thesis
    using escalation_by_any_trigger [of empty_object ?msg "''other''" ghosted_world example_phone 0
        example_parse ?tn "labelled ''other''"] c di t
    by blast
qed

section \<open>Properties: the escalated state\<close>

lemma handle_sm_result:
  "\<exists>r w'. handleIncomingMessage_sm True jp ph msg tn w = Inr (r, w')"
proof -
  obtain a w0 where g: "getOrCreateContext ph w = (a, w0)" by (cases "getOrCreateContext ph w")
  obtain i where di: "detectIntent True jp (intent_call tn) msg = Inr i" using handle_total by blast
  show ?thesis using handle_sm_unfold [OF g di refl] by (metis surj_pair)
qed

lemma escalated_world_facts:
  "reachable example_parse escalated_world
   \<and> conversations escalated_world example_phone = Some 0
   \<and> state (heap escalated_world 0) = Some Needs_human"
proof -
  let ?w = "initial_world example_clock"
  let ?tn = "example_turn ''other'' (Resolved ''ok'')"
  have n: "conversations ?w example_phone = None" "next_addr ?w = 0"
    by (simp_all add: initial_world_def)
  obtain w0 where g: "getOrCreateContext example_phone ?w = (0, w0)"
    using getOrCreateContext_new [OF n(1)] n(2) by simp
  have di: "detectIntent True example_parse (intent_call ?tn) ''I want a refund'' = Inr (labelled ''other'')"
    by (rule detect_ex) simp_all
  have t: "triggers_escalation (labelled ''other'') ''I want a refund''"
    by (simp add: triggers_escalation_def keyword_facts)
  from handle_sm_escalates [OF g di t] obtain r w' where
    h: "handleIncomingMessage_sm True example_parse example_phone ''I want a refund'' ?tn ?w = Inr (r, w')"
    and f: "conversations w' example_phone = Some 0" "state (heap w' 0) = Some Needs_human"
    by blast
  have e: "escalated_world = w'" by (simp add: escalated_world_def h)
  have "reachable example_parse w'" by (rule reachable.message_sm [OF reachable.start h])
  then show ?thesis using f by (simp add: e)
qed

text \<open>
  Claim C1, as stated, fails: after a first message that escalates, a second message
  classified \<open>pricing\<close> moves the state from \<open>needs_human\<close> to \<open>awaiting_payment\<close>.
\<close>

theorem needs_human_left_counterexample:
  "reachable example_parse escalated_world
   \<and> map_option state (stored example_phone escalated_world) = Some (Some Needs_human)
   \<and> map_option state
        (stored example_phone
           (snd (projr (handleIncomingMessage_sm True example_parse example_phone
                          ''how much is it'' (example_turn ''pricing'' (Resolved ''ok''))
                          escalated_world))))
       = Some (Some Awaiting_payment)"
proof -
  note f = escalated_world_facts
  let ?tn = "example_turn ''pricing'' (Resolved ''ok'')"
  have lt: "0 < next_addr escalated_world"
    using reachable_inv [of example_parse escalated_world] f by (auto simp: wf_world_def)
  have di: "detectIntent True example_parse (intent_call ?tn) ''how much is it'' = Inr (labelled ''pricing'')"
    by (rule detect_ex) simp_all
  have nt: "\<not> triggers_escalation (labelled ''pricing'') ''how much is it''"
    by (simp add: triggers_escalation_def keyword_facts)
  have c: "conversations escalated_world example_phone = Some 0"
    and s: "state (heap escalated_world 0) = Some Needs_human" using f by simp_all
  from sm_from_needs_human [OF c lt s di] nt obtain r w' where
    "handleIncomingMessage_sm True example_parse example_phone ''how much is it'' ?tn escalated_world = Inr (r, w')"
    "conversations w' example_phone = Some 0" "state (heap w' 0) = Some Awaiting_payment"
    by auto
  then show ?thesis using f by (simp add: stored_def)
qed

text \<open>
  Claim C1, amended. For every context in state \<open>needs_human\<close> stored in a well-formed
  world (every reachable world is one): the service that dispatches on the state leaves
  it \<open>needs_human\<close> after a further message, except that a message classified
  \<open>pricing\<close> that does not escalate moves it to \<open>awaiting_payment\<close> (the pricing
  handler runs regardless of the state; the \<open>technical_issue\<close> handler does not move
  it); the service that advances the state from the collected fields leaves it
  \<open>needs_human\<close> on every turn that escalates or does not enter the
  payment-confirmation branch; \<^verbatim>\<open>activateTrial\<close> and \<^verbatim>\<open>activateSubscription\<close>
  move it to \<open>trial_active\<close> and \<open>active_subscriber\<close>.
\<close>

theorem needs_human_after_message:
  assumes "wf_world w" and "conversations w ph = Some a"
    and "state (heap w a) = Some Needs_human"
    and "detectIntent True jp (intent_call tn) msg = Inr i"
  shows "(\<exists>r w'. handleIncomingMessage_sm True jp ph msg tn w = Inr (r, w')
            \<and> conversations w' ph = Some a
            \<and> state (heap w' a)
                = (if intent i = ''pricing'' \<and> \<not> triggers_escalation i msg
                   then Some Awaiting_payment else Some Needs_human))
     \<and> (triggers_escalation i msg \<or> \<not> (intent i = ''payment'' \<and> isPaymentConfirmation msg)
          \<longrightarrow> (\<exists>r w'. handleIncomingMessage_auto True jp ph msg tn w = Inr (r, w')
                  \<and> conversations w' ph = Some a \<and> state (heap w' a) = Some Needs_human))
     \<and> state (heap (snd (activateTrial ph creds w)) a) = Some Trial_active
     \<and> state (heap (snd (activateSubscription ph p creds w)) a) = Some Active_subscriber"
proof -
  have lt: "a < next_addr w" using assms(1,2) by (auto simp: wf_world_def)
  show ?thesis
    using sm_from_needs_human [OF assms(2) lt assms(3,4)]
      auto_from_needs_human [OF assms(2) lt assms(3,4)]
      activations_set_state [OF assms(2), of creds p]
    by blast
qed

theorem needs_human_after_message_witness:
  "reachable example_parse escalated_world
   \<and> conversations escalated_world example_phone = Some 0
   \<and> state (heap escalated_world 0) = Some Needs_human
   \<and> detectIntent True example_parse (intent_call (example_turn ''other'' (Resolved ''ok''))) ''thanks''
       = Inr (labelled ''other'')
   \<and> (\<exists>r w'. handleIncomingMessage_sm True example_parse example_phone ''thanks''
                (example_turn ''other'' (Resolved ''ok'')) escalated_world = Inr (r, w')
          \<and> state (heap w' 0) = Some Needs_human)
   \<and> (\<exists>r w'. handleIncomingMessage_auto True example_parse example_phone ''thanks''
                (example_turn ''other'' (Resolved ''ok'')) escalated_world = Inr (r, w')
          \<and> state (heap w' 0) = Some Needs_human)
   \<and> state (heap (snd (activateTrial example_phone example_credentials escalated_world)) 0)
       = Some Trial_active"
proof -
  note f = escalated_world_facts
  let ?tn = "example_turn ''other'' (Resolved ''ok'')"
  have di: "detectIntent True example_parse (intent_call ?tn) ''thanks'' = Inr (labelled ''other'')"
    by (rule detect_ex) simp_all
  have nt: "\<not> triggers_escalation (labelled ''other'') ''thanks''"
    by (simp add: triggers_escalation_def keyword_facts)
  have r: "reachable example_parse escalated_world"
    and c: "conversations escalated_world example_phone = Some 0"
    and s: "state (heap escalated_world 0) = Some Needs_human" using f by simp_all
  have wf: "wf_world escalated_world" using reachable_inv [OF r] by simp
  show ?thesis
    using needs_human_after_message [OF wf c s di, of example_credentials Monthly] r c s di nt
    by (auto simp: keyword_facts)
qed

section \<open>Properties: the content preference\<close>





lemma trial_notification_stamp [simp]:
  "createTrialNotification (c\<lparr>updatedAt := t\<rparr>) = createTrialNotification c"
  by (simp add: createTrialNotification_def)





end
